theory Spec2Isabelle
  imports Complex_Main "HOL-Library.Word" "HOL-Library.AList"
begin

section \<open>Secure storage (src/utils/secureStorage.js)\<close>

subsection \<open>Values and the browser primitives the module calls\<close>

text \<open>
  JavaScript values that cross the storage boundary are JSON values. The JavaScript
  \<^verbatim>\<open>null\<close> is \<open>JNull\<close>; \<^verbatim>\<open>decrypt\<close> and \<^verbatim>\<open>getItem\<close> return it both for a stored
  \<^verbatim>\<open>null\<close> and for a failure, exactly as the source does. Numbers are integers here
  (no claim depends on fractions, NaN or infinities).
\<close>

datatype json =
    JNull
  | JBool bool
  | JNum int
  | JStr string
  | JArr "json list"
  | JObj "(string \<times> json) list"

type_synonym bytes = "8 word list"

text \<open>
  The module is glue around primitives of the browser: \<^verbatim>\<open>JSON\<close>, \<^verbatim>\<open>TextEncoder\<close>,
  \<^verbatim>\<open>TextDecoder\<close>, \<^verbatim>\<open>btoa\<close>/\<^verbatim>\<open>atob\<close>, \<^verbatim>\<open>crypto.subtle\<close>, \<^verbatim>\<open>crypto.getRandomValues\<close>,
  \<^verbatim>\<open>navigator\<close>/\<^verbatim>\<open>screen\<close> and the Web Storage quota. None of them is code of the
  repository, so they are parameters, collected in one record. A primitive that can
  throw (or reject) returns an option, \<open>None\<close> standing for the exception:
  \<^item> \<open>JSON_parse\<close>: \<^verbatim>\<open>SyntaxError\<close> on text that is not JSON;
  \<^item> \<open>atob\<close>: \<^verbatim>\<open>InvalidCharacterError\<close> on text that is not base64;
  \<^item> \<open>subtle_decrypt\<close>: rejects when the authentication tag does not verify;
  \<^item> \<open>subtle_deriveKey\<close>: rejects or throws where \<^verbatim>\<open>crypto.subtle\<close> is unavailable;
  \<^item> \<open>storage_accepts\<close>: whether \<^verbatim>\<open>Storage.setItem\<close> takes the write, or throws
    \<^verbatim>\<open>QuotaExceededError\<close>.
  \<open>random\<close> is the stream of bytes \<^verbatim>\<open>crypto.getRandomValues\<close> hands out in this run, and
  \<open>max_arguments\<close> is the largest number of arguments that the engine accepts in one
  call: a call with more throws \<^verbatim>\<open>RangeError\<close>.
\<close>

record 'k host =
  JSON_stringify :: "json \<Rightarrow> string"
  JSON_parse :: "string \<Rightarrow> json option"
  TextEncoder_encode :: "string \<Rightarrow> bytes"
  TextDecoder_decode :: "bytes \<Rightarrow> string"
  btoa :: "string \<Rightarrow> string"
  atob :: "string \<Rightarrow> string option"
  subtle_encrypt :: "'k \<Rightarrow> bytes \<Rightarrow> bytes \<Rightarrow> bytes"
  subtle_decrypt :: "'k \<Rightarrow> bytes \<Rightarrow> bytes \<Rightarrow> bytes option"
  subtle_deriveKey :: "string \<Rightarrow> 'k option"
  random :: "nat \<Rightarrow> 8 word"
  fingerprint_components :: "string list"
  storage_accepts :: "(string \<rightharpoonup> string) \<Rightarrow> string \<Rightarrow> string \<Rightarrow> bool"
  max_arguments :: nat

text \<open>
  The state of one \<^verbatim>\<open>SecureStorage\<close> instance and of its surroundings: the underlying
  medium (\<^verbatim>\<open>this.storage\<close>), the memoised key promise (\<^verbatim>\<open>this.keyPromise\<close>: not started,
  rejected, or resolved to a key) and how many random bytes have been drawn so far.
\<close>

record 'k sstate =
  storage :: "string \<rightharpoonup> string"
  keyPromise :: "'k option option"
  drawn :: nat

definition IV_LENGTH :: nat where
  "IV_LENGTH = 12"

definition ENCRYPTION_PREFIX :: string where
  "ENCRYPTION_PREFIX = ''ENC:''"

definition startsWith :: "string \<Rightarrow> string \<Rightarrow> bool" where
  "startsWith s p = (take (length p) s = p)"

definition slice :: "string \<Rightarrow> nat \<Rightarrow> string" where
  "slice s n = drop n s"

text \<open>\<^verbatim>\<open>String.fromCharCode\<close> on a byte and \<^verbatim>\<open>c.charCodeAt(0)\<close> stored into a \<^verbatim>\<open>Uint8Array\<close>.\<close>

definition fromCharCode :: "8 word \<Rightarrow> char" where
  "fromCharCode w = char_of (unat w)"

definition charCodeAt0 :: "char \<Rightarrow> 8 word" where
  "charCodeAt0 c = of_nat (of_char c)"

definition getRandomValues :: "'k host \<Rightarrow> 'k sstate \<Rightarrow> nat \<Rightarrow> bytes \<times> 'k sstate" where
  "getRandomValues h st n =
     (map (random h) [drawn st ..< drawn st + n], st\<lparr>drawn := drawn st + n\<rparr>)"

subsection \<open>encrypt and decrypt\<close>

text \<open>
  \<^verbatim>\<open>encrypt\<close> draws the initialization vector with
  \<^verbatim>\<open>crypto.getRandomValues(new Uint8Array(IV_LENGTH))\<close>, so it takes the state and returns
  it with the generator moved on. \<^verbatim>\<open>String.fromCharCode(...combined)\<close> passes every byte
  of the vector and the ciphertext as one argument of a single call; beyond the engine's
  limit the call throws \<^verbatim>\<open>RangeError\<close>, \<^verbatim>\<open>encrypt\<close> has no \<^verbatim>\<open>try\<close>, and the result is \<open>None\<close>.
  With a key derived for encryption \<^verbatim>\<open>crypto.subtle.encrypt\<close> does not reject, and \<^verbatim>\<open>btoa\<close>
  is applied to characters below 256 only, so neither of them fails here.
\<close>

definition encrypt :: "'k host \<Rightarrow> 'k sstate \<Rightarrow> json \<Rightarrow> 'k \<Rightarrow> string option \<times> 'k sstate" where
  "encrypt h st data key =
     (let (iv, st') = getRandomValues h st IV_LENGTH;
          encryptedData = subtle_encrypt h key iv (TextEncoder_encode h (JSON_stringify h data));
          combined = iv @ encryptedData
      in if length combined \<le> max_arguments h
         then (Some (ENCRYPTION_PREFIX @ btoa h (map fromCharCode combined)), st')
         else (None, st'))"

text \<open>Every failure inside the \<^verbatim>\<open>try\<close> block ends in the \<^verbatim>\<open>catch\<close>, which returns \<^verbatim>\<open>null\<close>.\<close>

definition decrypt :: "'k host \<Rightarrow> string \<Rightarrow> 'k \<Rightarrow> json" where
  "decrypt h encryptedString key =
     (let dataWithoutPrefix =
            (if startsWith encryptedString ENCRYPTION_PREFIX
             then slice encryptedString (length ENCRYPTION_PREFIX)
             else encryptedString)
      in case atob h dataWithoutPrefix of
           None \<Rightarrow> JNull
         | Some binary \<Rightarrow>
             (let combined = map charCodeAt0 binary;
                  iv = take IV_LENGTH combined;
                  encryptedData = drop IV_LENGTH combined
              in case subtle_decrypt h key iv encryptedData of
                   None \<Rightarrow> JNull
                 | Some decryptedData \<Rightarrow>
                     (case JSON_parse h (TextDecoder_decode h decryptedData) of
                        None \<Rightarrow> JNull
                      | Some v \<Rightarrow> v)))"

subsection \<open>The SecureStorage class\<close>

fun join :: "string \<Rightarrow> string list \<Rightarrow> string" where
  "join sep [] = []"
| "join sep [x] = x"
| "join sep (x # y # ys) = x @ sep @ join sep (y # ys)"

definition generateBrowserFingerprint :: "'k host \<Rightarrow> string" where
  "generateBrowserFingerprint h = join ''|'' (fingerprint_components h)"

text \<open>
  \<^verbatim>\<open>init\<close> starts the derivation once and keeps the promise, also a rejected one; the
  result is what \<^verbatim>\<open>await this.init()\<close> gives: a key, or \<open>None\<close> for the exception.
\<close>

definition init :: "'k host \<Rightarrow> 'k sstate \<Rightarrow> 'k option \<times> 'k sstate" where
  "init h st =
     (case keyPromise st of
        None \<Rightarrow>
          (let p = subtle_deriveKey h (generateBrowserFingerprint h)
           in (p, st\<lparr>keyPromise := Some p\<rparr>))
      | Some p \<Rightarrow> (p, st))"

text \<open>
  Whatever is thrown inside \<^verbatim>\<open>setItem\<close> (a rejected key derivation, the \<^verbatim>\<open>RangeError\<close> of
  \<^verbatim>\<open>encrypt\<close>, a refused write) ends in its \<^verbatim>\<open>catch\<close>: the result is \<^verbatim>\<open>false\<close> and the
  medium is as before.
\<close>

definition setItem :: "'k host \<Rightarrow> 'k sstate \<Rightarrow> string \<Rightarrow> json \<Rightarrow> bool \<times> 'k sstate" where
  "setItem h st key v =
     (let (k, st1) = init h st
      in case k of
           None \<Rightarrow> (False, st1)
         | Some encryptionKey \<Rightarrow>
             (let (e, st2) = encrypt h st1 v encryptionKey
              in case e of
                   None \<Rightarrow> (False, st2)
                 | Some encrypted \<Rightarrow>
                     if storage_accepts h (storage st2) key encrypted
                     then (True, st2\<lparr>storage := (storage st2)(key \<mapsto> encrypted)\<rparr>)
                     else (False, st2)))"

text \<open>
  \<^verbatim>\<open>if (!stored) return null\<close> takes an absent entry and the empty string alike. In the
  migration branch \<^verbatim>\<open>setItem\<close> never throws, so the inner \<^verbatim>\<open>catch\<close> is reached by a
  failing \<^verbatim>\<open>JSON.parse\<close> only.
\<close>

definition getItem :: "'k host \<Rightarrow> 'k sstate \<Rightarrow> string \<Rightarrow> json \<times> 'k sstate" where
  "getItem h st key =
     (case storage st key of
        None \<Rightarrow> (JNull, st)
      | Some stored \<Rightarrow>
          if stored = [] then (JNull, st)
          else if startsWith stored ENCRYPTION_PREFIX then
            (let (k, st1) = init h st
             in case k of
                  None \<Rightarrow> (JNull, st1)
                | Some encryptionKey \<Rightarrow>
                    (let decrypted = decrypt h stored encryptionKey
                     in if decrypted = JNull
                        then (JNull, st1\<lparr>storage := (storage st1)(key := None)\<rparr>)
                        else (decrypted, st1)))
          else
            (case JSON_parse h stored of
               Some plainData \<Rightarrow> (plainData, snd (setItem h st key plainData))
             | None \<Rightarrow> (JStr stored, snd (setItem h st key (JStr stored)))))"

definition removeItem :: "'k sstate \<Rightarrow> string \<Rightarrow> 'k sstate" where
  "removeItem st key = st\<lparr>storage := (storage st)(key := None)\<rparr>"

definition hasItem :: "'k sstate \<Rightarrow> string \<Rightarrow> bool" where
  "hasItem st key = (storage st key \<noteq> None)"

subsection \<open>What the codec needs from the browser\<close>

text \<open>
  The round trips of the browser primitives that the module relies on. A value is
  JSON-serializable when \<^verbatim>\<open>JSON.parse\<close> reads back what \<^verbatim>\<open>JSON.stringify\<close> wrote; a key is
  valid when decryption under it undoes encryption under it.
\<close>

definition json_serializable :: "'k host \<Rightarrow> json \<Rightarrow> bool" where
  "json_serializable h v = (JSON_parse h (JSON_stringify h v) = Some v)"

definition utf8_inverse :: "'k host \<Rightarrow> bool" where
  "utf8_inverse h = (\<forall>s. TextDecoder_decode h (TextEncoder_encode h s) = s)"

definition base64_inverse :: "'k host \<Rightarrow> bool" where
  "base64_inverse h = (\<forall>s. atob h (btoa h s) = Some s)"

definition valid_key :: "'k host \<Rightarrow> 'k \<Rightarrow> bool" where
  "valid_key h k = (\<forall>iv p. subtle_decrypt h k iv (subtle_encrypt h k iv p) = Some p)"

text \<open>
  The bytes that \<^verbatim>\<open>encrypt\<close> hands to \<^verbatim>\<open>String.fromCharCode\<close> in a given state (the
  initialization vector followed by the ciphertext), and whether the engine accepts that
  many arguments.
\<close>

definition combined :: "'k host \<Rightarrow> 'k sstate \<Rightarrow> json \<Rightarrow> 'k \<Rightarrow> bytes" where
  "combined h st data key =
     (let iv = fst (getRandomValues h st IV_LENGTH)
      in iv @ subtle_encrypt h key iv (TextEncoder_encode h (JSON_stringify h data)))"

definition within_argument_limit :: "'k host \<Rightarrow> 'k sstate \<Rightarrow> json \<Rightarrow> 'k \<Rightarrow> bool" where
  "within_argument_limit h st data key = (length (combined h st data key) \<le> max_arguments h)"

subsection \<open>A small concrete browser\<close>

text \<open>
  A concrete instance of the primitives, used to run the definitions on examples: JSON
  restricted to a few literals and unescaped strings, Latin-1 for the text codec, the
  identity for base64, a one-byte shift cipher with a one-byte checksum standing in
  for AES-GCM, and an engine that takes up to 125000 arguments in a call.
\<close>

definition demo_stringify :: "json \<Rightarrow> string" where
  "demo_stringify v =
     (case v of
        JNull \<Rightarrow> ''null''
      | JBool b \<Rightarrow> (if b then ''true'' else ''false'')
      | JNum n \<Rightarrow> ''0''
      | JStr s \<Rightarrow> CHR 0x22 # s @ [CHR 0x22]
      | JArr xs \<Rightarrow> ''[]''
      | JObj kvs \<Rightarrow> ''{}'')"

definition demo_parse :: "string \<Rightarrow> json option" where
  "demo_parse s =
     (if s = ''null'' then Some JNull
      else if s = ''true'' then Some (JBool True)
      else if s = ''false'' then Some (JBool False)
      else if s = ''0'' then Some (JNum 0)
      else if s = ''[]'' then Some (JArr [])
      else if s = ''{}'' then Some (JObj [])
      else if 2 \<le> length s \<and> hd s = CHR 0x22 \<and> last s = CHR 0x22
        then Some (JStr (butlast (tl s)))
      else None)"

definition demo_tag :: "8 word \<Rightarrow> bytes \<Rightarrow> bytes \<Rightarrow> 8 word" where
  "demo_tag k iv p = k + sum_list iv + sum_list p"

definition demo_encrypt :: "8 word \<Rightarrow> bytes \<Rightarrow> bytes \<Rightarrow> bytes" where
  "demo_encrypt k iv p = map (\<lambda>b. b + k) p @ [demo_tag k iv p]"

definition demo_decrypt :: "8 word \<Rightarrow> bytes \<Rightarrow> bytes \<Rightarrow> bytes option" where
  "demo_decrypt k iv c =
     (if c = [] then None
      else (let p = map (\<lambda>b. b - k) (butlast c)
            in if last c = demo_tag k iv p then Some p else None))"

definition demo_host :: "8 word host" where
  "demo_host =
     \<lparr> JSON_stringify = demo_stringify,
       JSON_parse = demo_parse,
       TextEncoder_encode = map charCodeAt0,
       TextDecoder_decode = map fromCharCode,
       btoa = (\<lambda>s. s),
       atob = Some,
       subtle_encrypt = demo_encrypt,
       subtle_decrypt = demo_decrypt,
       subtle_deriveKey = (\<lambda>password. Some (of_nat (length password))),
       random = of_nat,
       fingerprint_components =
         [''Mozilla/5.0'', ''en-US'', ''24'', ''1920'', ''1080'', ''360'', ''8''],
       storage_accepts = (\<lambda>m key v. True),
       max_arguments = 125000 \<rparr>"

definition demo_state :: "(string \<times> string) list \<Rightarrow> 8 word sstate" where
  "demo_state entries = \<lparr>storage = map_of entries, keyPromise = None, drawn = 0\<rparr>"

section \<open>Transaction cache (src/utils/transactionCache.js)\<close>

subsection \<open>Records, identifiers and dates\<close>

text \<open>
  The cache reads two properties of a transaction, \<^verbatim>\<open>CustomerTripId\<close> and \<^verbatim>\<open>TripDate\<close>;
  everything else is payload, carried by the extension of the record. A property holds
  a primitive value; \<open>Undefined\<close> is what reading an absent property gives. Numbers are
  integers (identifiers and epoch milliseconds), so there is no NaN among them; identifiers
  and dates that are arrays or objects are outside the model.
\<close>

datatype jsprim = Undefined | Null | Bool bool | Num int | Str string

record transaction =
  CustomerTripId :: jsprim
  TripDate :: jsprim

text \<open>The shape of a record of the upstream API (docs/API_DOCUMENTATION.md).\<close>

record api_transaction = transaction +
  Entry_TripDateTime :: jsprim
  TollAmount :: rat

text \<open>JavaScript truthiness, as in \<^verbatim>\<open>if (!id) return\<close> and \<^verbatim>\<open>t && t.CustomerTripId\<close>.\<close>

definition truthy :: "jsprim \<Rightarrow> bool" where
  "truthy v =
     (case v of
        Undefined \<Rightarrow> False
      | Null \<Rightarrow> False
      | Bool b \<Rightarrow> b
      | Num n \<Rightarrow> n \<noteq> 0
      | Str s \<Rightarrow> s \<noteq> [])"

text \<open>
  \<^verbatim>\<open>cache.transactions[id]\<close> turns the identifier into a property key with ToString, so
  the number 7 and the string "7" name the same entry. (Integers of 22 digits and more
  print in exponent notation in JavaScript; that range is not modelled.)
\<close>

definition digit_char :: "nat \<Rightarrow> char" where
  "digit_char d = char_of (48 + d)"

function showNat :: "nat \<Rightarrow> string" where
  "showNat n = (if n < 10 then [digit_char n] else showNat (n div 10) @ [digit_char (n mod 10)])"
  by pat_completeness auto
termination
  by (relation "measure id") auto

definition ToString :: "jsprim \<Rightarrow> string" where
  "ToString v =
     (case v of
        Undefined \<Rightarrow> ''undefined''
      | Null \<Rightarrow> ''null''
      | Bool b \<Rightarrow> (if b then ''true'' else ''false'')
      | Num n \<Rightarrow> (if n < 0 then CHR ''-'' # showNat (nat (- n)) else showNat (nat n))
      | Str s \<Rightarrow> s)"

text \<open>
  A \<^verbatim>\<open>Date\<close> is its time value: milliseconds since the epoch, or \<open>None\<close> for NaN
  (\<^verbatim>\<open>Invalid Date\<close>). A time value is at most 8.64e15 in absolute value; \<open>TimeClip\<close> turns
  anything beyond into NaN. \<^verbatim>\<open>new Date(v)\<close> never throws on a primitive: \<^verbatim>\<open>undefined\<close>
  gives an invalid date, \<^verbatim>\<open>null\<close> and booleans convert to numbers, a string goes through
  \<^verbatim>\<open>Date.parse\<close>, which is the browser's and therefore a parameter, and the result is
  clipped.
\<close>

type_synonym timevalue = "int option"

definition TimeClip :: "int \<Rightarrow> timevalue" where
  "TimeClip t = (if \<bar>t\<bar> \<le> 8640000000000000 then Some t else None)"

definition newDate :: "(string \<Rightarrow> timevalue) \<Rightarrow> jsprim \<Rightarrow> timevalue" where
  "newDate Date_parse v =
     (case v of
        Undefined \<Rightarrow> None
      | Null \<Rightarrow> TimeClip 0
      | Bool b \<Rightarrow> TimeClip (if b then 1 else 0)
      | Num n \<Rightarrow> TimeClip n
      | Str s \<Rightarrow> Option.bind (Date_parse s) TimeClip)"

text \<open>The arguments of \<^verbatim>\<open>getCachedTransactions\<close> may be \<^verbatim>\<open>Date\<close> objects or primitives.\<close>

datatype datearg = DateObject timevalue | Primitive jsprim

definition newDateOf :: "(string \<Rightarrow> timevalue) \<Rightarrow> datearg \<Rightarrow> timevalue" where
  "newDateOf Date_parse a =
     (case a of
        DateObject t \<Rightarrow> Option.bind t TimeClip
      | Primitive v \<Rightarrow> newDate Date_parse v)"

definition msPerDay :: int where
  "msPerDay = 1000 * 60 * 60 * 24"

text \<open>
  The time zone of the browser is the function LocalTZA of the language definition:
  \<open>zone t True\<close> is the offset of local time from UTC, in milliseconds, at the UTC time
  \<open>t\<close>, and \<open>zone t False\<close> the offset at the local time \<open>t\<close>; it changes where the zone's
  daylight-saving rules say so. \<^verbatim>\<open>d.setHours(h, m, s, ms)\<close> moves to local time, keeps the
  day, replaces the time within the day, moves back to UTC and clips; an invalid date
  stays invalid.
\<close>

type_synonym zone = "int \<Rightarrow> bool \<Rightarrow> int"

definition LocalTime :: "zone \<Rightarrow> int \<Rightarrow> int" where
  "LocalTime zone t = t + zone t True"

definition UTC :: "zone \<Rightarrow> int \<Rightarrow> int" where
  "UTC zone t = t - zone t False"

definition setHours :: "zone \<Rightarrow> timevalue \<Rightarrow> int \<Rightarrow> int \<Rightarrow> int \<Rightarrow> int \<Rightarrow> timevalue" where
  "setHours zone d h m s ms =
     (case d of
        None \<Rightarrow> None
      | Some t \<Rightarrow>
          (let day = LocalTime zone t div msPerDay;
               date = day * msPerDay + (h * 3600000 + m * 60000 + s * 1000 + ms)
           in TimeClip (UTC zone date)))"

text \<open>\<^verbatim>\<open>a >= b\<close> and \<^verbatim>\<open>a <= b\<close> on dates compare time values; with NaN they are false.\<close>

definition date_ge :: "timevalue \<Rightarrow> timevalue \<Rightarrow> bool" where
  "date_ge a b = (case (a, b) of (Some x, Some y) \<Rightarrow> x \<ge> y | _ \<Rightarrow> False)"

definition date_le :: "timevalue \<Rightarrow> timevalue \<Rightarrow> bool" where
  "date_le a b = (case (a, b) of (Some x, Some y) \<Rightarrow> x \<le> y | _ \<Rightarrow> False)"

subsection \<open>The container and its store\<close>

record meta =
  cachedAt :: int
  expiresAt :: int
  isRecent :: bool

text \<open>
  The two objects of the container are association lists of their own properties:
  \<^verbatim>\<open>delete\<close> is \<open>AList.delete\<close>, a property read is \<open>map_of\<close>, and an assignment
  \<^verbatim>\<open>obj[key] = v\<close> is \<open>setProperty\<close>. On an ordinary object the assignment adds or replaces
  the property, except for the key \<^verbatim>\<open>__proto__\<close>: unless the object has a property of that
  name of its own, the assignment goes to the accessor that every object inherits, which
  changes the prototype and adds no property. The order in which \<^verbatim>\<open>Object.keys\<close> lists
  integer-like keys is not modelled; no statement below depends on the order of a result.
\<close>

definition setProperty :: "string \<Rightarrow> 'v \<Rightarrow> (string \<times> 'v) list \<Rightarrow> (string \<times> 'v) list" where
  "setProperty key v obj =
     (if key = ''__proto__'' \<and> key \<notin> fst ` set obj then obj else AList.update key v obj)"

record 't cache =
  transactions :: "(string \<times> 't) list"
  metadata :: "(string \<times> meta) list"

text \<open>
  The cache module sees \<^verbatim>\<open>secureLocalStorage\<close> through \<^verbatim>\<open>getItem(CACHE_KEY)\<close> and
  \<^verbatim>\<open>setItem(CACHE_KEY, cache)\<close> only: \<open>entry\<close> is the value held under the key and
  \<open>setItemLog\<close> the values written so far, oldest first.
\<close>

record 't localStore =
  entry :: "'t cache option"
  setItemLog :: "'t cache list"

definition CACHE_KEY :: string where
  "CACHE_KEY = ''ntta_transaction_cache''"

definition RECENT_TRANSACTION_THRESHOLD_DAYS :: int where
  "RECENT_TRANSACTION_THRESHOLD_DAYS = 3"

definition RECENT_CACHE_DURATION_MS :: int where
  "RECENT_CACHE_DURATION_MS = 60 * 60 * 1000"

definition OLD_CACHE_DURATION_MS :: int where
  "OLD_CACHE_DURATION_MS = 7 * 24 * 60 * 60 * 1000"

definition getCache :: "'t localStore \<Rightarrow> 't cache" where
  "getCache s =
     (case entry s of
        None \<Rightarrow> \<lparr>transactions = [], metadata = []\<rparr>
      | Some cached \<Rightarrow> cached)"

definition saveCache :: "'t localStore \<Rightarrow> 't cache \<Rightarrow> 't localStore" where
  "saveCache s cache = s\<lparr>entry := Some cache, setItemLog := setItemLog s @ [cache]\<rparr>"

subsection \<open>Recency and caching\<close>

text \<open>
  \<open>nowDate\<close> is the reading of \<^verbatim>\<open>new Date()\<close>. The argument is \<open>None\<close> for \<^verbatim>\<open>null\<close> or
  \<^verbatim>\<open>undefined\<close>: reading \<^verbatim>\<open>.TripDate\<close> then throws, and only then does the \<^verbatim>\<open>catch\<close> return
  \<^verbatim>\<open>true\<close>. For an object nothing in the \<^verbatim>\<open>try\<close> block throws: an unparseable date makes
  \<open>daysAgo\<close> NaN, and \<^verbatim>\<open>NaN < 3\<close> is false. The quotient is exact here; in double precision
  it is rounded, monotonically, and the largest quotient below 3, which is 3 - 1/86400000,
  is not rounded up to 3, so the comparison with 3 comes out the same.
\<close>

definition isRecentTransaction ::
  "(string \<Rightarrow> timevalue) \<Rightarrow> int \<Rightarrow> 'a transaction_scheme option \<Rightarrow> bool" where
  "isRecentTransaction Date_parse nowDate transaction =
     (case transaction of
        None \<Rightarrow> True
      | Some t \<Rightarrow>
          (let tripDate = newDate Date_parse (TripDate t);
               daysAgo = map_option (\<lambda>d. real_of_int (nowDate - d) / (1000 * 60 * 60 * 24)) tripDate
           in case daysAgo of
                None \<Rightarrow> False
              | Some x \<Rightarrow> x < real_of_int RECENT_TRANSACTION_THRESHOLD_DAYS))"

definition getCacheDuration ::
  "(string \<Rightarrow> timevalue) \<Rightarrow> int \<Rightarrow> 'a transaction_scheme option \<Rightarrow> int" where
  "getCacheDuration Date_parse nowDate transaction =
     (if isRecentTransaction Date_parse nowDate transaction
      then RECENT_CACHE_DURATION_MS
      else OLD_CACHE_DURATION_MS)"

text \<open>
  The callback of \<^verbatim>\<open>transactions.forEach\<close> in \<^verbatim>\<open>cacheTransactions\<close>. \<open>now\<close> is the one
  reading of \<^verbatim>\<open>Date.now()\<close> before the loop; each call of \<^verbatim>\<open>isRecentTransaction\<close> reads
  the clock again, so the state carries the number \<open>n\<close> of readings taken and \<open>clock n\<close>
  is the next one.
\<close>

definition cacheOne ::
  "(string \<Rightarrow> timevalue) \<Rightarrow> (nat \<Rightarrow> int) \<Rightarrow> int \<Rightarrow> 'a transaction_scheme \<Rightarrow>
   'a transaction_scheme cache \<times> nat \<Rightarrow> 'a transaction_scheme cache \<times> nat" where
  "cacheOne Date_parse clock now transaction = (\<lambda>(cache, n).
     (let tid = CustomerTripId transaction
      in if \<not> truthy tid then (cache, n)
         else
           (let cacheDuration = getCacheDuration Date_parse (clock n) (Some transaction)
            in (cache\<lparr>transactions := setProperty (ToString tid) transaction (transactions cache),
                      metadata := setProperty (ToString tid)
                        \<lparr>cachedAt = now,
                         expiresAt = now + cacheDuration,
                         isRecent = isRecentTransaction Date_parse (clock (n + 1)) (Some transaction)\<rparr>
                        (metadata cache)\<rparr>,
                n + 2))))"

text \<open>
  The loop. An element that is \<^verbatim>\<open>null\<close> or \<^verbatim>\<open>undefined\<close> makes \<^verbatim>\<open>transaction.CustomerTripId\<close>
  throw; the result is then \<open>None\<close> and the outer \<^verbatim>\<open>catch\<close> ends the call without saving.
\<close>

fun cacheEach ::
  "(string \<Rightarrow> timevalue) \<Rightarrow> (nat \<Rightarrow> int) \<Rightarrow> int \<Rightarrow> 'a transaction_scheme option list \<Rightarrow>
   'a transaction_scheme cache \<times> nat \<Rightarrow> ('a transaction_scheme cache \<times> nat) option" where
  "cacheEach Date_parse clock now [] s = Some s"
| "cacheEach Date_parse clock now (None # ts) s = None"
| "cacheEach Date_parse clock now (Some t # ts) s =
     cacheEach Date_parse clock now ts (cacheOne Date_parse clock now t s)"

text \<open>The argument is \<open>None\<close> when it is not an array.\<close>

definition cacheTransactions ::
  "(string \<Rightarrow> timevalue) \<Rightarrow> (nat \<Rightarrow> int) \<Rightarrow> int \<Rightarrow> 'a transaction_scheme localStore \<Rightarrow>
   'a transaction_scheme option list option \<Rightarrow> 'a transaction_scheme localStore" where
  "cacheTransactions Date_parse clock now s txs =
     (case txs of
        None \<Rightarrow> s
      | Some ts \<Rightarrow>
          (case cacheEach Date_parse clock now ts (getCache s, 0) of
             None \<Rightarrow> s
           | Some (cache, n) \<Rightarrow> saveCache s cache))"

subsection \<open>Reading the cache\<close>

definition expired :: "int \<Rightarrow> 't cache \<Rightarrow> string \<Rightarrow> bool" where
  "expired now cache tid =
     (case map_of (metadata cache) tid of
        None \<Rightarrow> False
      | Some m \<Rightarrow> expiresAt m < now)"

text \<open>
  The callback of \<^verbatim>\<open>Object.keys(cache.transactions).forEach\<close>; the state is the container,
  the result array and the flag \<^verbatim>\<open>hasExpired\<close>. A stored transaction is an object, so
  \<^verbatim>\<open>if (!transaction) return\<close> skips exactly the keys that are no longer there.
\<close>

definition visit ::
  "(string \<Rightarrow> timevalue) \<Rightarrow> int \<Rightarrow> timevalue \<Rightarrow> timevalue \<Rightarrow> string \<Rightarrow>
   'a transaction_scheme cache \<times> 'a transaction_scheme list \<times> bool \<Rightarrow>
   'a transaction_scheme cache \<times> 'a transaction_scheme list \<times> bool" where
  "visit Date_parse now start end tid = (\<lambda>(cache, cached, hasExpired).
     if expired now cache tid
     then (cache\<lparr>transactions := AList.delete tid (transactions cache),
                 metadata := AList.delete tid (metadata cache)\<rparr>, cached, True)
     else
       (case map_of (transactions cache) tid of
          None \<Rightarrow> (cache, cached, hasExpired)
        | Some transaction \<Rightarrow>
            (let tripDate = newDate Date_parse (TripDate transaction)
             in if date_ge tripDate start \<and> date_le tripDate end
                then (cache, cached @ [transaction], hasExpired)
                else (cache, cached, hasExpired))))"

text \<open>
  \<^verbatim>\<open>getCachedTransactions\<close> returns the result array; the second component is the store
  after the call. The store holds a container or nothing, so nothing inside the \<^verbatim>\<open>try\<close>
  block throws, and the \<^verbatim>\<open>catch\<close> that returns an empty array is not reached. \<open>now\<close> is the
  reading of \<^verbatim>\<open>Date.now()\<close>.
\<close>

definition getCachedTransactions ::
  "(string \<Rightarrow> timevalue) \<Rightarrow> zone \<Rightarrow> int \<Rightarrow> 'a transaction_scheme localStore \<Rightarrow>
   datearg \<Rightarrow> datearg \<Rightarrow> 'a transaction_scheme list \<times> 'a transaction_scheme localStore" where
  "getCachedTransactions Date_parse zone now s startDate endDate =
     (let cache = getCache s;
          start = setHours zone (newDateOf Date_parse startDate) 0 0 0 0;
          end = setHours zone (newDateOf Date_parse endDate) 23 59 59 999;
          (cache', cached, hasExpired) =
             fold (visit Date_parse now start end) (map fst (transactions cache)) (cache, [], False)
      in (cached, if hasExpired then saveCache s cache' else s))"

subsection \<open>Merging\<close>

text \<open>
  A \<^verbatim>\<open>Map\<close> keeps its keys in insertion order and \<^verbatim>\<open>set\<close> on a present key replaces the
  value in place, which is \<open>AList.update\<close>; keys are compared by SameValueZero, which on
  these primitives is equality. Nothing in the \<^verbatim>\<open>try\<close> block throws, so the \<^verbatim>\<open>catch\<close> that
  returns the fresh list is never reached.
\<close>

definition mergeSet ::
  "'a transaction_scheme option \<Rightarrow> (jsprim \<times> 'a transaction_scheme) list \<Rightarrow>
   (jsprim \<times> 'a transaction_scheme) list" where
  "mergeSet t merged =
     (case t of
        None \<Rightarrow> merged
      | Some x \<Rightarrow>
          if truthy (CustomerTripId x) then AList.update (CustomerTripId x) x merged else merged)"

definition mergeWithCache ::
  "'a transaction_scheme option list option \<Rightarrow> 'a transaction_scheme option list option \<Rightarrow>
   'a transaction_scheme list" where
  "mergeWithCache freshTransactions cachedTransactions =
     (let merged0 = [];
          merged1 = (case cachedTransactions of None \<Rightarrow> merged0 | Some cs \<Rightarrow> fold mergeSet cs merged0);
          merged2 = (case freshTransactions of None \<Rightarrow> merged1 | Some fs \<Rightarrow> fold mergeSet fs merged1)
      in map snd merged2)"

subsection \<open>Notions used to state the properties\<close>

text \<open>
  The records of an array that take part in caching and merging (objects with a truthy
  \<^verbatim>\<open>CustomerTripId\<close>), and the last of them that carries a given identifier.
\<close>

definition identified :: "'a transaction_scheme option list \<Rightarrow> 'a transaction_scheme list" where
  "identified ts = [x. Some x \<leftarrow> ts, truthy (CustomerTripId x)]"

definition lastWithId ::
  "'a transaction_scheme option list \<Rightarrow> jsprim \<Rightarrow> 'a transaction_scheme option" where
  "lastWithId ts k = List.find (\<lambda>x. CustomerTripId x = k) (rev (identified ts))"





subsection \<open>Example data\<close>

text \<open>
  A \<^verbatim>\<open>Date.parse\<close> that knows three ISO timestamps and one date without a time, which
  the language reads as midnight UTC of that day, and rejects everything else.
\<close>

definition demo_Date_parse :: "string \<Rightarrow> timevalue" where
  "demo_Date_parse s =
     map_of [(''2025-11-18T08:00:00Z'', 1763452800000),
             (''2025-11-27T23:59:59Z'', 1764287999000),
             (''2025-11-28T14:24:36Z'', 1764339876000),
             (''2025-11-27'', 1764201600000)] s"


definition central_zone :: zone where
  "central_zone t isUTC = - 21600000"

definition trip :: "string \<Rightarrow> jsprim \<Rightarrow> rat \<Rightarrow> api_transaction" where
  "trip i d amount =
     \<lparr>CustomerTripId = Str i, TripDate = d, Entry_TripDateTime = Undefined, TollAmount = amount\<rparr>"


text \<open>
  A store holding four entries, read at \<open>demo_now\<close> (2025-11-28 14:24:36 UTC). The first
  entry expired three days earlier; the others are good for another week and are dated
  2025-11-27 at 23:59:59, at 00:00:00 and, the last one, a second before that (UTC).
\<close>

definition demo_now :: int where
  "demo_now = 1764339876000"



definition empty_store :: "api_transaction localStore" where
  "empty_store = \<lparr>entry = None, setItemLog = []\<rparr>"

text \<open>
  A store read in the Central zone, none of its entries expired at \<open>demo_now\<close>: trips at
  00:00:00 and at 23:59:59 local time of 2025-11-27, and one a second before that
  midnight.
\<close>

definition central_store :: "api_transaction localStore" where
  "central_store =
     \<lparr>entry = Some
        \<lparr>transactions =
           [(''2001'', trip ''2001'' (Num 1764223200000) (- 2)),
            (''2002'', trip ''2002'' (Num 1764309599000) (- 3)),
            (''2003'', trip ''2003'' (Num 1764223199000) (- 1))],
         metadata =
           [(''2001'', \<lparr>cachedAt = 1764339000000, expiresAt = 1764943800000, isRecent = False\<rparr>),
            (''2002'', \<lparr>cachedAt = 1764339000000, expiresAt = 1764943800000, isRecent = False\<rparr>),
            (''2003'', \<lparr>cachedAt = 1764339000000, expiresAt = 1764943800000, isRecent = False\<rparr>)]\<rparr>,
      setItemLog = []\<rparr>"

section \<open>Properties of secure storage\<close>

lemma fromCharCode_charCodeAt0: "fromCharCode (charCodeAt0 c) = c"
  by (simp add: fromCharCode_def charCodeAt0_def unat_of_nat)

lemma charCodeAt0_fromCharCode: "charCodeAt0 (fromCharCode w) = w"
proof -
  have "unat w < 256"
    using unsigned_less [of w, where ?'a = nat] by simp
  then show ?thesis
    by (simp add: fromCharCode_def charCodeAt0_def)
qed

lemma getRandomValues_length: "length (fst (getRandomValues h st n)) = n"
  by (simp add: getRandomValues_def)

lemma startsWith_prefix: "startsWith (p @ s) p"
  by (simp add: startsWith_def)

lemma startsWith_nonempty: "startsWith s ENCRYPTION_PREFIX \<Longrightarrow> s \<noteq> []"
  by (auto simp: startsWith_def ENCRYPTION_PREFIX_def)

lemma decrypt_envelope:
  assumes "length iv = IV_LENGTH" "base64_inverse h" "utf8_inverse h" "valid_key h k"
    "json_serializable h v"
  shows "decrypt h (ENCRYPTION_PREFIX @ btoa h (map fromCharCode
           (iv @ subtle_encrypt h k iv (TextEncoder_encode h (JSON_stringify h v))))) k = v"
  using assms
  by (simp add: decrypt_def startsWith_prefix slice_def base64_inverse_def utf8_inverse_def
      valid_key_def json_serializable_def o_def charCodeAt0_fromCharCode)

lemma combined_iv:
  "take IV_LENGTH (combined h st v k) = fst (getRandomValues h st IV_LENGTH)"
  by (simp add: combined_def Let_def getRandomValues_length)

lemma encrypt_eq:
  "encrypt h st v k =
     (if within_argument_limit h st v k
      then Some (ENCRYPTION_PREFIX @ btoa h (map fromCharCode (combined h st v k)))
      else None,
      st\<lparr>drawn := drawn st + IV_LENGTH\<rparr>)"
  by (simp add: encrypt_def within_argument_limit_def combined_def getRandomValues_def Let_def
      del: map_append)

lemma encrypt_state: "snd (encrypt h st v k) = st\<lparr>drawn := drawn st + IV_LENGTH\<rparr>"
  by (simp add: encrypt_eq)

lemma encrypt_throws: "fst (encrypt h st v k) = None \<longleftrightarrow> \<not> within_argument_limit h st v k"
  by (simp add: encrypt_eq)

lemma encrypt_startsWith: "fst (encrypt h st v k) = Some env \<Longrightarrow> startsWith env ENCRYPTION_PREFIX"
  by (auto simp: encrypt_eq startsWith_prefix split: if_splits)

lemma encrypt_decrypt:
  assumes "base64_inverse h" "utf8_inverse h" "valid_key h k" "json_serializable h v"
    and "fst (encrypt h st v k) = Some env"
  shows "decrypt h env k = v"
proof -
  from assms(5) have env: "env = ENCRYPTION_PREFIX @ btoa h (map fromCharCode
      (fst (getRandomValues h st IV_LENGTH) @
       subtle_encrypt h k (fst (getRandomValues h st IV_LENGTH))
         (TextEncoder_encode h (JSON_stringify h v))))"
    by (auto simp: encrypt_eq combined_def Let_def split: if_splits simp del: map_append)
  show ?thesis
    unfolding env using getRandomValues_length assms(1-4) by (rule decrypt_envelope)
qed

lemma init_result:
  assumes "init h st = (r, st1)"
  shows "keyPromise st1 = Some r" "storage st1 = storage st" "drawn st1 = drawn st"
  using assms by (auto simp: init_def Let_def split: option.splits)

lemma init_memo: "keyPromise st = Some r \<Longrightarrow> init h st = (r, st)"
  by (simp add: init_def)

lemma setItem_success:
  assumes "init h st = (Some ek, st1)"
    and "fst (encrypt h st1 v ek) = Some env"
    and "storage_accepts h (storage st) K env"
  shows "setItem h st K v =
           (True, st1\<lparr>drawn := drawn st + IV_LENGTH, storage := (storage st)(K \<mapsto> env)\<rparr>)"
  using assms init_result [OF assms(1)]
  by (simp add: setItem_def split_beta encrypt_state)

lemma setItem_throws:
  assumes "init h st = (Some ek, st1)"
    and "fst (encrypt h st1 v ek) = None"
  shows "setItem h st K v = (False, st1\<lparr>drawn := drawn st + IV_LENGTH\<rparr>)"
  using assms init_result [OF assms(1)]
  by (simp add: setItem_def split_beta encrypt_state)

lemma getItem_plaintext:
  assumes "storage st K = Some stored" "stored \<noteq> []" "\<not> startsWith stored ENCRYPTION_PREFIX"
  shows "getItem h st K =
           (let v = (case JSON_parse h stored of Some plainData \<Rightarrow> plainData | None \<Rightarrow> JStr stored)
            in (v, snd (setItem h st K v)))"
  using assms by (simp add: getItem_def Let_def split: option.splits)

lemma getItem_encrypted:
  assumes "storage st K = Some env" "startsWith env ENCRYPTION_PREFIX"
    "keyPromise st = Some (Some ek)"
  shows "getItem h st K =
           (if decrypt h env ek = JNull then (JNull, st\<lparr>storage := (storage st)(K := None)\<rparr>)
            else (decrypt h env ek, st))"
  using assms startsWith_nonempty [OF assms(2)]
  by (simp add: getItem_def init_memo)

lemma getItem_empty: "storage st K = Some [] \<Longrightarrow> getItem h st K = (JNull, st)"
  by (simp add: getItem_def)

lemma decrypt_failure_causes:
  assumes "d = (if startsWith s ENCRYPTION_PREFIX then slice s (length ENCRYPTION_PREFIX) else s)"
  shows "atob h d = None \<Longrightarrow> decrypt h s k = JNull"
    and "atob h d = Some b \<Longrightarrow>
         subtle_decrypt h k (take IV_LENGTH (map charCodeAt0 b)) (drop IV_LENGTH (map charCodeAt0 b)) = None
         \<Longrightarrow> decrypt h s k = JNull"
    and "atob h d = Some b \<Longrightarrow>
         subtle_decrypt h k (take IV_LENGTH (map charCodeAt0 b)) (drop IV_LENGTH (map charCodeAt0 b)) = Some p
         \<Longrightarrow> JSON_parse h (TextDecoder_decode h p) = None \<Longrightarrow> decrypt h s k = JNull"
  using assms by (simp_all add: decrypt_def Let_def)

lemma demo_base64: "base64_inverse demo_host"
  by (simp add: base64_inverse_def demo_host_def)

lemma demo_utf8: "utf8_inverse demo_host"
  by (simp add: utf8_inverse_def demo_host_def o_def fromCharCode_charCodeAt0)

lemma demo_valid_key: "valid_key demo_host k"
  by (simp add: valid_key_def demo_host_def demo_encrypt_def demo_decrypt_def o_def)

lemma demo_json_string: "json_serializable demo_host (JStr s)"
  by (simp add: json_serializable_def demo_host_def demo_stringify_def demo_parse_def)

lemma demo_fingerprint: "generateBrowserFingerprint demo_host = ''Mozilla/5.0|en-US|24|1920|1080|360|8''"
  by (simp add: generateBrowserFingerprint_def demo_host_def)

lemma demo_init:
  "init demo_host (demo_state es) = (Some 36, (demo_state es)\<lparr>keyPromise := Some (Some 36)\<rparr>)"
  by (simp add: init_def demo_state_def demo_fingerprint Let_def) (simp add: demo_host_def)

lemma demo_combined_length:
  "length (combined demo_host st (JStr s) k) = length s + 15"
  by (simp add: combined_def Let_def getRandomValues_def IV_LENGTH_def demo_host_def
      demo_encrypt_def demo_stringify_def)

text \<open>
  \<^bold>\<open>C9\<close> (round trip). \<^verbatim>\<open>encrypt\<close> does not return an envelope for every JSON-serializable
  value: on an engine that takes at most 125000 arguments in one call, with codecs that
  are inverse to each other and a valid key, encrypting a string of 150000 characters
  throws in \<^verbatim>\<open>String.fromCharCode(...combined)\<close>, so there is nothing to decrypt; \<^verbatim>\<open>setItem\<close>
  catches the error, returns \<^verbatim>\<open>false\<close> and stores nothing.
\<close>

theorem encrypt_large_value_throws:
  "max_arguments demo_host = 125000
   \<and> base64_inverse demo_host \<and> utf8_inverse demo_host \<and> valid_key demo_host 36
   \<and> json_serializable demo_host (JStr (replicate 150000 CHR ''a''))
   \<and> length (combined demo_host (demo_state []) (JStr (replicate 150000 CHR ''a'')) 36) = 150015
   \<and> fst (encrypt demo_host (demo_state []) (JStr (replicate 150000 CHR ''a'')) 36) = None
   \<and> fst (setItem demo_host (demo_state []) ''ntta_transaction_cache''
            (JStr (replicate 150000 CHR ''a''))) = False
   \<and> storage (snd (setItem demo_host (demo_state []) ''ntta_transaction_cache''
            (JStr (replicate 150000 CHR ''a'')))) ''ntta_transaction_cache'' = None"
proof -
  let ?v = "JStr (replicate 150000 CHR ''a'')"
  have m: "max_arguments demo_host = 125000"
    by (simp add: demo_host_def)
  have l: "length (combined demo_host st ?v 36) = 150015" for st
    by (simp add: demo_combined_length)
  have e: "fst (encrypt demo_host st ?v 36) = None" for st
    by (simp add: encrypt_throws within_argument_limit_def l m)
  have s: "setItem demo_host (demo_state []) ''ntta_transaction_cache'' ?v
      = (False, (demo_state [])\<lparr>keyPromise := Some (Some 36), drawn := drawn (demo_state []) + IV_LENGTH\<rparr>)"
    using setItem_throws [OF demo_init e] by simp
  have n: "storage (demo_state []) ''ntta_transaction_cache'' = None"
    by (simp add: demo_state_def)
  from m demo_base64 demo_utf8 demo_valid_key [of 36] demo_json_string [of "replicate 150000 CHR ''a''"]
    l [of "demo_state []"] e [of "demo_state []"] s n
  show ?thesis by simp
qed

text \<open>
  The round trip does hold for the envelopes that \<^verbatim>\<open>encrypt\<close> returns, and \<^verbatim>\<open>encrypt\<close>
  returns one exactly when the bytes to encode are within the engine's limit.
\<close>

lemma decrypt_encrypt_within_limit:
  assumes "base64_inverse h" and "utf8_inverse h" and "valid_key h k" and "json_serializable h v"
    and "within_argument_limit h st v k"
  shows "\<exists>env. fst (encrypt h st v k) = Some env \<and> decrypt h env k = v"
proof -
  from assms(5) obtain env where env: "fst (encrypt h st v k) = Some env"
    by (simp add: encrypt_eq)
  with assms(1-4) have "decrypt h env k = v"
    by (rule encrypt_decrypt)
  with env show ?thesis by blast
qed

text \<open>
  \<^bold>\<open>C2\<close> (self-healing read). If the string stored under \<open>K\<close> begins with the marker, the
  key is available, and \<^verbatim>\<open>decrypt\<close> fails on the string (it returns \<^verbatim>\<open>null\<close>, whatever the
  cause: a bad envelope, a failed authentication, text that is not JSON), then \<^verbatim>\<open>getItem\<close>
  returns \<^verbatim>\<open>null\<close> as a value, the entry under \<open>K\<close> is gone afterwards, and every other entry
  is as before.
\<close>

theorem getItem_corrupt_entry_removed:
  assumes "storage st K = Some stored"
    and "startsWith stored ENCRYPTION_PREFIX"
    and "init h st = (Some ek, st1)"
    and "decrypt h stored ek = JNull"
  shows "fst (getItem h st K) = JNull
       \<and> storage (snd (getItem h st K)) K = None
       \<and> (\<forall>K'. K' \<noteq> K \<longrightarrow> storage (snd (getItem h st K)) K' = storage st K')"
  using assms init_result(2) [OF assms(3)] startsWith_nonempty [OF assms(2)]
  by (simp add: getItem_def)

theorem getItem_corrupt_entry_removed_witness:
  "storage (demo_state [(''accessToken'', ''ENC:'' @ map fromCharCode
       [0, 1, 2, 3, 4, 5, 6, 7, 8, 9, 10, 11, 0x46, 0x98, 0x93, 0x8F, 0x89, 0x92, 0x46, 0xCA])])
     ''accessToken''
     = Some (''ENC:'' @ map fromCharCode
       [0, 1, 2, 3, 4, 5, 6, 7, 8, 9, 10, 11, 0x46, 0x98, 0x93, 0x8F, 0x89, 0x92, 0x46, 0xCA])
   \<and> startsWith (''ENC:'' @ map fromCharCode
       [0, 1, 2, 3, 4, 5, 6, 7, 8, 9, 10, 11, 0x46, 0x98, 0x93, 0x8F, 0x89, 0x92, 0x46, 0xCA])
       ENCRYPTION_PREFIX
   \<and> fst (init demo_host (demo_state [(''accessToken'', ''ENC:'' @ map fromCharCode
       [0, 1, 2, 3, 4, 5, 6, 7, 8, 9, 10, 11, 0x46, 0x98, 0x93, 0x8F, 0x89, 0x92, 0x46, 0xCA])]))
     = Some 36
   \<and> decrypt demo_host (''ENC:'' @ map fromCharCode
       [0, 1, 2, 3, 4, 5, 6, 7, 8, 9, 10, 11, 0x46, 0x98, 0x93, 0x8F, 0x89, 0x92, 0x46, 0xCA]) 36
     = JNull
   \<and> fst (getItem demo_host (demo_state [(''accessToken'', ''ENC:'' @ map fromCharCode
       [0, 1, 2, 3, 4, 5, 6, 7, 8, 9, 10, 11, 0x46, 0x98, 0x93, 0x8F, 0x89, 0x92, 0x46, 0xCA])])
       ''accessToken'') = JNull
   \<and> storage (snd (getItem demo_host (demo_state [(''accessToken'', ''ENC:'' @ map fromCharCode
       [0, 1, 2, 3, 4, 5, 6, 7, 8, 9, 10, 11, 0x46, 0x98, 0x93, 0x8F, 0x89, 0x92, 0x46, 0xCA])])
       ''accessToken'')) ''accessToken'' = None"
proof -
  let ?env = "''ENC:'' @ map fromCharCode
       [0, 1, 2, 3, 4, 5, 6, 7, 8, 9, 10, 11, 0x46, 0x98, 0x93, 0x8F, 0x89, 0x92, 0x46, 0xCA]"
  let ?st = "demo_state [(''accessToken'', ?env)]"
  have a: "storage ?st ''accessToken'' = Some ?env"
    by (simp add: demo_state_def)
  have b: "startsWith ?env ENCRYPTION_PREFIX"
    by (simp add: startsWith_def ENCRYPTION_PREFIX_def)
  have d: "decrypt demo_host ?env 36 = JNull"
    by (simp add: decrypt_def demo_host_def startsWith_def slice_def ENCRYPTION_PREFIX_def
        IV_LENGTH_def charCodeAt0_fromCharCode demo_decrypt_def demo_tag_def)
  show ?thesis
    using getItem_corrupt_entry_removed [OF a b demo_init d] a b d demo_init [of "[(''accessToken'', ?env)]"]
    by simp
qed

text \<open>
  \<^bold>\<open>C10\<close> (fresh initialization vector). Every call of \<^verbatim>\<open>encrypt\<close> takes the next 12
  bytes of the random generator and moves the generator on by 12; it returns an envelope
  whenever the bytes to encode are within the engine's argument limit; in every envelope
  that it returns the 12 bytes drawn are the first 12 bytes inside; and two calls on the
  same value and key whose sampled vectors differ return different envelopes.
\<close>

theorem encrypt_fresh_iv:
  assumes "base64_inverse h"
  shows "(\<forall>env. fst (encrypt h st v k) = Some env \<longrightarrow>
            (\<exists>binary. atob h (slice env (length ENCRYPTION_PREFIX)) = Some binary
               \<and> take 12 (map charCodeAt0 binary) = map (random h) [drawn st ..< drawn st + 12]))
       \<and> drawn (snd (encrypt h st v k)) = drawn st + 12
       \<and> (within_argument_limit h st v k \<longrightarrow> (\<exists>env. fst (encrypt h st v k) = Some env))
       \<and> (fst (getRandomValues h st IV_LENGTH) \<noteq> fst (getRandomValues h st' IV_LENGTH) \<longrightarrow>
            (\<forall>env env'. fst (encrypt h st v k) = Some env \<longrightarrow> fst (encrypt h st' v k) = Some env'
               \<longrightarrow> env \<noteq> env'))"
proof -
  have inj_btoa: "btoa h a = btoa h b \<Longrightarrow> a = b" for a b
    using assms unfolding base64_inverse_def by (metis option.inject)
  have inj_fcc: "map fromCharCode a = map fromCharCode b \<Longrightarrow> a = b" for a b
    by (metis charCodeAt0_fromCharCode map_map map_idI o_apply)
  have env_eq: "env = ENCRYPTION_PREFIX @ btoa h (map fromCharCode (combined h s v k))"
    if "fst (encrypt h s v k) = Some env" for s env
    using that by (auto simp: encrypt_eq split: if_splits)
  have first: "\<exists>binary. atob h (slice env (length ENCRYPTION_PREFIX)) = Some binary
      \<and> take 12 (map charCodeAt0 binary) = map (random h) [drawn st ..< drawn st + 12]"
    if "fst (encrypt h st v k) = Some env" for env
  proof -
    have "atob h (slice env (length ENCRYPTION_PREFIX)) = Some (map fromCharCode (combined h st v k))"
      using assms unfolding env_eq [OF that] base64_inverse_def by (simp add: slice_def)
    moreover have "take 12 (map charCodeAt0 (map fromCharCode (combined h st v k)))
        = map (random h) [drawn st ..< drawn st + 12]"
      using combined_iv [of h st v k]
      by (simp add: o_def charCodeAt0_fromCharCode IV_LENGTH_def getRandomValues_def)
    ultimately show ?thesis by blast
  qed
  have second: "drawn (snd (encrypt h st v k)) = drawn st + 12"
    by (simp add: encrypt_state IV_LENGTH_def)
  have third: "env \<noteq> env'"
    if ne: "fst (getRandomValues h st IV_LENGTH) \<noteq> fst (getRandomValues h st' IV_LENGTH)"
      and e: "fst (encrypt h st v k) = Some env" and e': "fst (encrypt h st' v k) = Some env'"
    for env env'
  proof
    assume "env = env'"
    then have "btoa h (map fromCharCode (combined h st v k))
        = btoa h (map fromCharCode (combined h st' v k))"
      unfolding env_eq [OF e] env_eq [OF e'] by (simp only: same_append_eq)
    then have "map fromCharCode (combined h st v k) = map fromCharCode (combined h st' v k)"
      by (rule inj_btoa)
    then have "combined h st v k = combined h st' v k"
      by (rule inj_fcc)
    then have "take IV_LENGTH (combined h st v k) = take IV_LENGTH (combined h st' v k)"
      by simp
    then have "fst (getRandomValues h st IV_LENGTH) = fst (getRandomValues h st' IV_LENGTH)"
      unfolding combined_iv .
    with ne show False by contradiction
  qed
  have fourth: "\<exists>env. fst (encrypt h st v k) = Some env" if "within_argument_limit h st v k"
    using that by (simp add: encrypt_eq)
  from first second third fourth show ?thesis by blast
qed

theorem encrypt_fresh_iv_witness:
  "base64_inverse demo_host
   \<and> within_argument_limit demo_host (demo_state []) (JStr ''token'') 36
   \<and> fst (getRandomValues demo_host (demo_state []) IV_LENGTH)
       \<noteq> fst (getRandomValues demo_host
               (snd (encrypt demo_host (demo_state []) (JStr ''token'') 36)) IV_LENGTH)
   \<and> (\<exists>env env'. fst (encrypt demo_host (demo_state []) (JStr ''token'') 36) = Some env
         \<and> fst (encrypt demo_host
               (snd (encrypt demo_host (demo_state []) (JStr ''token'') 36)) (JStr ''token'') 36)
             = Some env'
         \<and> env \<noteq> env')"
proof -
  let ?st = "demo_state []"
  let ?st' = "snd (encrypt demo_host (demo_state []) (JStr ''token'') 36)"
  have ne: "fst (getRandomValues demo_host ?st IV_LENGTH)
       \<noteq> fst (getRandomValues demo_host ?st' IV_LENGTH)"
    by (simp add: encrypt_state getRandomValues_def IV_LENGTH_def demo_state_def demo_host_def
        upt_rec [of 0] upt_rec [of 12])
  have fits: "within_argument_limit demo_host s (JStr ''token'') 36" for s
    by (simp add: within_argument_limit_def demo_combined_length) (simp add: demo_host_def)
  obtain env where env: "fst (encrypt demo_host ?st (JStr ''token'') 36) = Some env"
    using encrypt_fresh_iv [OF demo_base64, where st = ?st and v = "JStr ''token''" and k = 36]
      fits [of ?st] by blast
  obtain env' where env': "fst (encrypt demo_host ?st' (JStr ''token'') 36) = Some env'"
    using encrypt_fresh_iv [OF demo_base64, where st = ?st' and v = "JStr ''token''" and k = 36]
      fits [of ?st'] by blast
  from encrypt_fresh_iv [OF demo_base64, where st = ?st and st' = ?st'
        and v = "JStr ''token''" and k = 36] ne env env'
  have "env \<noteq> env'" by blast
  with demo_base64 fits [of ?st] ne env env' show ?thesis by blast
qed

text \<open>
  \<^bold>\<open>C1\<close> (migration of legacy plaintext). An empty stored string is read as an absent
  entry: \<^verbatim>\<open>getItem\<close> returns \<^verbatim>\<open>null\<close> and changes nothing. Let the string stored under \<open>K\<close>
  be non-empty and not begin with the marker, and let \<open>v\<close> be its JSON value, or the string
  itself when it is not JSON. Where the key can be derived, the codecs are inverse to each
  other, \<open>v\<close> is JSON-serializable, the bytes to encode are within the engine's argument
  limit and the medium accepts the write, the first \<^verbatim>\<open>getItem\<close> returns \<open>v\<close> and leaves an
  envelope beginning with the marker under \<open>K\<close>; the second \<^verbatim>\<open>getItem\<close> returns \<open>v\<close> again
  and encrypts nothing (no random bytes are drawn), and it leaves the state as it found it
  unless \<open>v\<close> is \<^verbatim>\<open>null\<close>.
\<close>

theorem getItem_migrates_once:
  "(storage st K = Some [] \<longrightarrow> getItem h st K = (JNull, st))
   \<and> (storage st K = Some stored \<and> stored \<noteq> [] \<and> \<not> startsWith stored ENCRYPTION_PREFIX
      \<and> init h st = (Some ek, st1) \<and> valid_key h ek \<and> base64_inverse h \<and> utf8_inverse h
      \<and> v = (case JSON_parse h stored of Some plainData \<Rightarrow> plainData | None \<Rightarrow> JStr stored)
      \<and> json_serializable h v
      \<and> within_argument_limit h st1 v ek
      \<and> (\<forall>m e. storage_accepts h m K e)
      \<longrightarrow> fst (getItem h st K) = v
        \<and> (\<exists>env. storage (snd (getItem h st K)) K = Some env \<and> startsWith env ENCRYPTION_PREFIX)
        \<and> fst (getItem h (snd (getItem h st K)) K) = v
        \<and> drawn (snd (getItem h (snd (getItem h st K)) K)) = drawn (snd (getItem h st K))
        \<and> (v \<noteq> JNull \<longrightarrow> snd (getItem h (snd (getItem h st K)) K) = snd (getItem h st K)))"
proof -
  have empty: "getItem h st K = (JNull, st)" if "storage st K = Some []"
    using that by (rule getItem_empty)
  have migrate: "fst (getItem h st K) = v
        \<and> (\<exists>env. storage (snd (getItem h st K)) K = Some env \<and> startsWith env ENCRYPTION_PREFIX)
        \<and> fst (getItem h (snd (getItem h st K)) K) = v
        \<and> drawn (snd (getItem h (snd (getItem h st K)) K)) = drawn (snd (getItem h st K))
        \<and> (v \<noteq> JNull \<longrightarrow> snd (getItem h (snd (getItem h st K)) K) = snd (getItem h st K))"
    if stored: "storage st K = Some stored" "stored \<noteq> []" "\<not> startsWith stored ENCRYPTION_PREFIX"
      and key: "init h st = (Some ek, st1)" "valid_key h ek"
      and codec: "base64_inverse h" "utf8_inverse h"
      and v: "v = (case JSON_parse h stored of Some plainData \<Rightarrow> plainData | None \<Rightarrow> JStr stored)"
        "json_serializable h v"
      and fits: "within_argument_limit h st1 v ek"
      and quota: "\<forall>m e. storage_accepts h m K e"
  proof -
    obtain env where e: "fst (encrypt h st1 v ek) = Some env"
      using fits by (simp add: encrypt_eq)
    let ?s1 = "st1\<lparr>drawn := drawn st + IV_LENGTH, storage := (storage st)(K \<mapsto> env)\<rparr>"
    have acc: "storage_accepts h (storage st) K env"
      using quota by simp
    have first: "getItem h st K = (v, ?s1)"
      using getItem_plaintext [OF stored, of h] setItem_success [OF key(1) e acc] v(1)
      by (simp add: Let_def)
    have env: "startsWith env ENCRYPTION_PREFIX"
      using e by (rule encrypt_startsWith)
    have dec: "decrypt h env ek = v"
      using codec key(2) v(2) e by (rule encrypt_decrypt)
    have kp: "keyPromise ?s1 = Some (Some ek)"
      using init_result(1) [OF key(1)] by simp
    have st: "storage ?s1 K = Some env"
      by simp
    have second: "getItem h ?s1 K =
        (if v = JNull then (JNull, ?s1\<lparr>storage := (storage ?s1)(K := None)\<rparr>) else (v, ?s1))"
      using getItem_encrypted [OF st env kp, of h] dec by simp
    show ?thesis
      unfolding first using env second by (cases "v = JNull") simp_all
  qed
  from empty migrate show ?thesis by blast
qed

theorem getItem_migrates_once_witness:
  "storage (demo_state [(''fullName'', [])]) ''fullName'' = Some []
   \<and> getItem demo_host (demo_state [(''fullName'', [])]) ''fullName''
       = (JNull, demo_state [(''fullName'', [])])
   \<and> storage (demo_state [(''privacyMode'', ''true'')]) ''privacyMode'' = Some ''true''
   \<and> ''true'' \<noteq> [] \<and> \<not> startsWith ''true'' ENCRYPTION_PREFIX
   \<and> fst (init demo_host (demo_state [(''privacyMode'', ''true'')])) = Some 36
   \<and> valid_key demo_host 36 \<and> base64_inverse demo_host \<and> utf8_inverse demo_host
   \<and> JSON_parse demo_host ''true'' = Some (JBool True)
   \<and> json_serializable demo_host (JBool True)
   \<and> within_argument_limit demo_host
        ((demo_state [(''privacyMode'', ''true'')])\<lparr>keyPromise := Some (Some 36)\<rparr>) (JBool True) 36
   \<and> fst (getItem demo_host (demo_state [(''privacyMode'', ''true'')]) ''privacyMode'') = JBool True
   \<and> (\<exists>env. storage (snd (getItem demo_host (demo_state [(''privacyMode'', ''true'')])
                ''privacyMode'')) ''privacyMode'' = Some env \<and> startsWith env ENCRYPTION_PREFIX)
   \<and> fst (getItem demo_host
            (snd (getItem demo_host (demo_state [(''privacyMode'', ''true'')]) ''privacyMode''))
            ''privacyMode'') = JBool True
   \<and> snd (getItem demo_host
            (snd (getItem demo_host (demo_state [(''privacyMode'', ''true'')]) ''privacyMode''))
            ''privacyMode'')
       = snd (getItem demo_host (demo_state [(''privacyMode'', ''true'')]) ''privacyMode'')"
proof -
  let ?st = "demo_state [(''privacyMode'', ''true'')]"
  let ?st1 = "?st\<lparr>keyPromise := Some (Some 36)\<rparr>"
  let ?e = "demo_state [(''fullName'', [])]"
  have z: "storage ?e ''fullName'' = Some []"
    by (simp add: demo_state_def)
  from getItem_migrates_once [of ?e "''fullName''" demo_host] z
  have ze: "getItem demo_host ?e ''fullName'' = (JNull, ?e)"
    by blast
  have a: "storage ?st ''privacyMode'' = Some ''true''"
    by (simp add: demo_state_def)
  have b: "''true'' \<noteq> []" by simp
  have c: "\<not> startsWith ''true'' ENCRYPTION_PREFIX"
    by (simp add: startsWith_def ENCRYPTION_PREFIX_def)
  have i: "init demo_host ?st = (Some 36, ?st1)"
    by (rule demo_init)
  have p: "JSON_parse demo_host ''true'' = Some (JBool True)"
    by (simp add: demo_host_def demo_parse_def)
  have v: "JBool True = (case JSON_parse demo_host ''true'' of
             Some plainData \<Rightarrow> plainData | None \<Rightarrow> JStr ''true'')"
    by (simp add: p)
  have j: "json_serializable demo_host (JBool True)"
    by (simp add: json_serializable_def demo_host_def demo_stringify_def demo_parse_def)
  have f: "within_argument_limit demo_host ?st1 (JBool True) 36"
    by (simp add: within_argument_limit_def combined_def Let_def getRandomValues_def IV_LENGTH_def
        demo_host_def demo_encrypt_def demo_stringify_def)
  have q: "\<forall>m e. storage_accepts demo_host m ''privacyMode'' e"
    by (simp add: demo_host_def)
  from getItem_migrates_once [of ?st "''privacyMode''" demo_host "''true''" 36 ?st1 "JBool True"]
    a b c i demo_valid_key [of 36] demo_base64 demo_utf8 v j f q
  have m: "fst (getItem demo_host ?st ''privacyMode'') = JBool True
        \<and> (\<exists>env. storage (snd (getItem demo_host ?st ''privacyMode'')) ''privacyMode'' = Some env
               \<and> startsWith env ENCRYPTION_PREFIX)
        \<and> fst (getItem demo_host (snd (getItem demo_host ?st ''privacyMode'')) ''privacyMode'') = JBool True
        \<and> snd (getItem demo_host (snd (getItem demo_host ?st ''privacyMode'')) ''privacyMode'')
            = snd (getItem demo_host ?st ''privacyMode'')"
    by blast
  from z ze a b c i demo_valid_key [of 36] demo_base64 demo_utf8 p j f m show ?thesis
    by simp
qed

text \<open>
  The empty string is a stored string that does not begin with the marker, and it is not
  JSON; \<^verbatim>\<open>getItem\<close> returns \<^verbatim>\<open>null\<close> for it, not the raw string, and leaves it in place
  unencrypted.
\<close>

theorem getItem_empty_string_counterexample:
  "storage (demo_state [(''fullName'', [])]) ''fullName'' = Some []
   \<and> \<not> startsWith [] ENCRYPTION_PREFIX
   \<and> JSON_parse demo_host [] = None
   \<and> fst (getItem demo_host (demo_state [(''fullName'', [])]) ''fullName'') = JNull
   \<and> fst (getItem demo_host (demo_state [(''fullName'', [])]) ''fullName'') \<noteq> JStr []
   \<and> storage (snd (getItem demo_host (demo_state [(''fullName'', [])]) ''fullName'')) ''fullName''
       = Some []"
  by (simp add: getItem_def demo_state_def startsWith_def ENCRYPTION_PREFIX_def demo_host_def
      demo_parse_def)

section \<open>Properties of the merge\<close>

lemma find_append:
  "List.find P (xs @ ys) = (case List.find P xs of Some x \<Rightarrow> Some x | None \<Rightarrow> List.find P ys)"
  by (induction xs) auto

lemma identified_Cons:
  "identified (t # ts) =
     (case t of None \<Rightarrow> identified ts
      | Some x \<Rightarrow> if truthy (CustomerTripId x) then x # identified ts else identified ts)"
  by (auto simp: identified_def split: option.splits)

lemma lastWithId_Nil: "lastWithId [] k = None"
  by (simp add: lastWithId_def identified_def)

lemma lastWithId_Cons:
  "lastWithId (t # ts) k =
     (case lastWithId ts k of
        Some x \<Rightarrow> Some x
      | None \<Rightarrow>
          (case t of
             None \<Rightarrow> None
           | Some x \<Rightarrow> if truthy (CustomerTripId x) \<and> CustomerTripId x = k then Some x else None))"
  by (auto simp: lastWithId_def identified_Cons find_append split: option.splits)

lemma lastWithId_Some:
  assumes "lastWithId ts k = Some x"
  shows "CustomerTripId x = k" "truthy k" "x \<in> set (identified ts)"
proof -
  from assms have "x \<in> set (identified ts) \<and> CustomerTripId x = k"
    unfolding lastWithId_def find_Some_iff by (metis nth_mem set_rev)
  moreover have "truthy (CustomerTripId y)" if "y \<in> set (identified ts)" for y
    using that by (auto simp: identified_def split: option.splits)
  ultimately show "CustomerTripId x = k" "truthy k" "x \<in> set (identified ts)"
    by auto
qed

lemma lastWithId_None: "lastWithId ts k = None \<longleftrightarrow> k \<notin> CustomerTripId ` set (identified ts)"
  by (auto simp: lastWithId_def find_None_iff)

lemma map_of_mergeSet:
  "map_of (mergeSet t al) k =
     (case t of
        None \<Rightarrow> map_of al k
      | Some x \<Rightarrow> if truthy (CustomerTripId x) \<and> CustomerTripId x = k then Some x else map_of al k)"
  by (auto simp: mergeSet_def AList.update_conv' split: option.splits)

lemma map_of_fold_mergeSet:
  "map_of (fold mergeSet ts al) k =
     (case lastWithId ts k of Some x \<Rightarrow> Some x | None \<Rightarrow> map_of al k)"
proof (induction ts arbitrary: al)
  case Nil
  show ?case by (simp add: lastWithId_Nil)
next
  case (Cons t ts)
  show ?case
    by (auto simp: Cons.IH lastWithId_Cons map_of_mergeSet split: option.splits)
qed

lemma distinct_fold_mergeSet:
  "distinct (map fst al) \<Longrightarrow> distinct (map fst (fold mergeSet ts al))"
  by (induction ts arbitrary: al) (auto simp: mergeSet_def AList.distinct_update split: option.splits)

lemma merged_entries:
  fixes fresh cached :: "'a transaction_scheme option list"
  defines "merged \<equiv> fold mergeSet fresh (fold mergeSet cached [])"
  shows "distinct (map fst merged)"
    and "(k, x) \<in> set merged \<longleftrightarrow>
           lastWithId fresh k = Some x \<or> (lastWithId fresh k = None \<and> lastWithId cached k = Some x)"
proof -
  show d: "distinct (map fst merged)"
    unfolding merged_def by (intro distinct_fold_mergeSet) simp
  have "(k, x) \<in> set merged \<longleftrightarrow> map_of merged k = Some x"
    using d by simp
  also have "\<dots> \<longleftrightarrow>
      lastWithId fresh k = Some x \<or> (lastWithId fresh k = None \<and> lastWithId cached k = Some x)"
    unfolding merged_def by (auto simp: map_of_fold_mergeSet split: option.splits)
  finally show "(k, x) \<in> set merged \<longleftrightarrow>
      lastWithId fresh k = Some x \<or> (lastWithId fresh k = None \<and> lastWithId cached k = Some x)" .
qed

lemma mergeWithCache_arrays:
  "mergeWithCache (Some fresh) (Some cached) = map snd (fold mergeSet fresh (fold mergeSet cached []))"
  by (simp add: mergeWithCache_def)

text \<open>
  \<^bold>\<open>C3\<close> (merge). For all arrays \<open>fresh\<close> and \<open>cached\<close>, the result of \<^verbatim>\<open>mergeWithCache\<close>
  holds no identifier twice; its identifiers are exactly the truthy identifiers of the
  records of the two arrays; no record without a truthy \<^verbatim>\<open>CustomerTripId\<close> is in it; and
  each of its records is, whole and unchanged, the last record of \<open>fresh\<close> with its
  identifier or, only when \<open>fresh\<close> has no record with that identifier, the last such
  record of \<open>cached\<close>.
\<close>

theorem mergeWithCache_one_per_id_fresh_wins:
  fixes fresh cached :: "'a transaction_scheme option list"
  defines "out \<equiv> mergeWithCache (Some fresh) (Some cached)"
  shows "distinct (map CustomerTripId out)
       \<and> CustomerTripId ` set out = CustomerTripId ` (set (identified fresh) \<union> set (identified cached))
       \<and> (\<forall>x \<in> set out. truthy (CustomerTripId x))
       \<and> (\<forall>x \<in> set out.
            lastWithId fresh (CustomerTripId x) = Some x
          \<or> (CustomerTripId x \<notin> CustomerTripId ` set (identified fresh)
             \<and> lastWithId cached (CustomerTripId x) = Some x))"
proof -
  define merged where "merged = fold mergeSet fresh (fold mergeSet cached [])"
  have out: "out = map snd merged"
    unfolding out_def merged_def by (rule mergeWithCache_arrays)
  have dist: "distinct (map fst merged)"
    unfolding merged_def by (rule merged_entries(1))
  have mem: "(k, x) \<in> set merged \<longleftrightarrow>
      lastWithId fresh k = Some x \<or> (lastWithId fresh k = None \<and> lastWithId cached k = Some x)"
    for k x unfolding merged_def by (rule merged_entries(2))
  have key: "CustomerTripId x = k" if "(k, x) \<in> set merged" for k x
  proof -
    from that have "lastWithId fresh k = Some x \<or> lastWithId cached k = Some x"
      unfolding mem by blast
    then show ?thesis
      using lastWithId_Some(1) by blast
  qed
  have "CustomerTripId (snd p) = fst p" if "p \<in> set merged" for p
    using key [of "fst p" "snd p"] that by simp
  then have keys: "map CustomerTripId out = map fst merged"
    by (simp add: out)
  have a: "distinct (map CustomerTripId out)"
    unfolding keys by (rule dist)
  have in_out: "x \<in> set out \<longleftrightarrow> (CustomerTripId x, x) \<in> set merged" for x
  proof
    assume "x \<in> set out"
    then obtain k where "(k, x) \<in> set merged"
      unfolding out by auto
    then show "(CustomerTripId x, x) \<in> set merged"
      using key by blast
  next
    assume "(CustomerTripId x, x) \<in> set merged"
    then have "snd (CustomerTripId x, x) \<in> set out"
      unfolding out set_map by (rule imageI)
    then show "x \<in> set out" by simp
  qed
  have d: "lastWithId fresh (CustomerTripId x) = Some x
          \<or> (CustomerTripId x \<notin> CustomerTripId ` set (identified fresh)
             \<and> lastWithId cached (CustomerTripId x) = Some x)" if "x \<in> set out" for x
    using that unfolding in_out mem lastWithId_None .
  have c: "truthy (CustomerTripId x)" if "x \<in> set out" for x
    using d [OF that] lastWithId_Some(2) by blast
  have b1: "CustomerTripId x \<in> CustomerTripId ` (set (identified fresh) \<union> set (identified cached))"
    if "x \<in> set out" for x
    using d [OF that] lastWithId_Some(3) by blast
  have b2: "k \<in> CustomerTripId ` set out"
    if k: "k \<in> CustomerTripId ` (set (identified fresh) \<union> set (identified cached))" for k
  proof (cases "lastWithId fresh k")
    case (Some x)
    then have "(k, x) \<in> set merged"
      unfolding mem by simp
    moreover from this have "CustomerTripId x = k"
      by (rule key)
    ultimately have "x \<in> set out"
      unfolding in_out by simp
    with \<open>CustomerTripId x = k\<close> show ?thesis by blast
  next
    case None
    then have "k \<notin> CustomerTripId ` set (identified fresh)"
      unfolding lastWithId_None .
    with k have "k \<in> CustomerTripId ` set (identified cached)"
      by blast
    then have "lastWithId cached k \<noteq> None"
      unfolding lastWithId_None by simp
    then obtain x where "lastWithId cached k = Some x"
      by blast
    with None have "(k, x) \<in> set merged"
      unfolding mem by simp
    moreover from this have "CustomerTripId x = k"
      by (rule key)
    ultimately have "x \<in> set out"
      unfolding in_out by simp
    with \<open>CustomerTripId x = k\<close> show ?thesis by blast
  qed
  have b: "CustomerTripId ` set out = CustomerTripId ` (set (identified fresh) \<union> set (identified cached))"
    using b1 b2 by blast
  from a b c d show ?thesis by blast
qed

theorem mergeWithCache_one_per_id_fresh_wins_witness:
  "mergeWithCache
     (Some [Some (trip ''1'' Undefined (- 5 / 2)), None, Some (trip [] Undefined 9)])
     (Some [Some (trip ''1'' Undefined (- 2)), Some (trip ''2'' Undefined (- 1))])
     = [trip ''1'' Undefined (- 5 / 2), trip ''2'' Undefined (- 1)]
   \<and> distinct (map CustomerTripId (mergeWithCache
       (Some [Some (trip ''1'' Undefined (- 5 / 2)), None, Some (trip [] Undefined 9)])
       (Some [Some (trip ''1'' Undefined (- 2)), Some (trip ''2'' Undefined (- 1))])))
   \<and> truthy (CustomerTripId (trip ''1'' Undefined (- 5 / 2)))
   \<and> lastWithId [Some (trip ''1'' Undefined (- 5 / 2)), None, Some (trip [] Undefined 9)]
         (CustomerTripId (trip ''1'' Undefined (- 5 / 2)))
       = Some (trip ''1'' Undefined (- 5 / 2))"
proof -
  let ?F = "[Some (trip ''1'' Undefined (- 5 / 2)), None, Some (trip [] Undefined 9)]"
  let ?C = "[Some (trip ''1'' Undefined (- 2)), Some (trip ''2'' Undefined (- 1))]"
  note T = mergeWithCache_one_per_id_fresh_wins [of ?F ?C]
  have e: "mergeWithCache (Some ?F) (Some ?C) = [trip ''1'' Undefined (- 5 / 2), trip ''2'' Undefined (- 1)]"
    by code_simp
  from T have a: "distinct (map CustomerTripId (mergeWithCache (Some ?F) (Some ?C)))"
    by (rule conjunct1)
  have m: "trip ''1'' Undefined (- 5 / 2) \<in> set (mergeWithCache (Some ?F) (Some ?C))"
    unfolding e by simp
  from T m have c: "truthy (CustomerTripId (trip ''1'' Undefined (- 5 / 2)))"
    by blast
  have i: "CustomerTripId (trip ''1'' Undefined (- 5 / 2)) \<in> CustomerTripId ` set (identified ?F)"
    by code_simp
  from T m i have l: "lastWithId ?F (CustomerTripId (trip ''1'' Undefined (- 5 / 2)))
      = Some (trip ''1'' Undefined (- 5 / 2))"
    by blast
  from e a c l show ?thesis by blast
qed

section \<open>Properties of reading the cache\<close>




















text \<open>
  \<^bold>\<open>C5\<close> (inclusive range). The caller names the two days by strings of the form
  \<^verbatim>\<open>yyyy-MM-dd\<close> (TransactionViewer.jsx). \<^verbatim>\<open>new Date\<close> reads such a string as midnight UTC
  of the day named, and \<^verbatim>\<open>setHours\<close> then moves within the local day that contains this
  instant; west of Greenwich that is the day before. Day 20419 of the epoch is 2025-11-27.
  In the Central zone, asked for the range from 2025-11-27 to 2025-11-27, the code filters
  by 00:00:00.000 to 23:59:59.999 of 2025-11-26, local time. Of three records that have
  not expired, the one at 00:00:00 of 2025-11-27 and the one at 23:59:59 of 2025-11-27
  are left out, and the one a second before 00:00:00 of 2025-11-27 is returned.
\<close>

theorem getCachedTransactions_range_previous_day:
  "demo_Date_parse ''2025-11-27'' = Some (20419 * msPerDay)
   \<and> TripDate (trip ''2001'' (Num 1764223200000) (- 2))
       = Num (UTC central_zone (20419 * msPerDay))
   \<and> TripDate (trip ''2002'' (Num 1764309599000) (- 3))
       = Num (UTC central_zone (20419 * msPerDay + (23 * 3600000 + 59 * 60000 + 59 * 1000)))
   \<and> TripDate (trip ''2003'' (Num 1764223199000) (- 1))
       = Num (UTC central_zone (20419 * msPerDay) - 1000)
   \<and> map_of (transactions (getCache central_store)) ''2001''
       = Some (trip ''2001'' (Num 1764223200000) (- 2))
   \<and> map_of (transactions (getCache central_store)) ''2002''
       = Some (trip ''2002'' (Num 1764309599000) (- 3))
   \<and> map_of (transactions (getCache central_store)) ''2003''
       = Some (trip ''2003'' (Num 1764223199000) (- 1))
   \<and> \<not> expired demo_now (getCache central_store) ''2001''
   \<and> \<not> expired demo_now (getCache central_store) ''2002''
   \<and> \<not> expired demo_now (getCache central_store) ''2003''
   \<and> setHours central_zone (newDateOf demo_Date_parse (Primitive (Str ''2025-11-27''))) 0 0 0 0
       = Some (UTC central_zone (20418 * msPerDay))
   \<and> setHours central_zone (newDateOf demo_Date_parse (Primitive (Str ''2025-11-27''))) 23 59 59 999
       = Some (UTC central_zone (20418 * msPerDay + 86399999))
   \<and> getCachedTransactions demo_Date_parse central_zone demo_now central_store
         (Primitive (Str ''2025-11-27'')) (Primitive (Str ''2025-11-27''))
       = ([trip ''2003'' (Num 1764223199000) (- 1)], central_store)"
proof -
  have p: "demo_Date_parse ''2025-11-27'' = Some (20419 * msPerDay)"
    by (simp add: demo_Date_parse_def msPerDay_def)
  have d: "TripDate (trip ''2001'' (Num 1764223200000) (- 2))
       = Num (UTC central_zone (20419 * msPerDay))"
    "TripDate (trip ''2002'' (Num 1764309599000) (- 3))
       = Num (UTC central_zone (20419 * msPerDay + (23 * 3600000 + 59 * 60000 + 59 * 1000)))"
    "TripDate (trip ''2003'' (Num 1764223199000) (- 1))
       = Num (UTC central_zone (20419 * msPerDay) - 1000)"
    by (simp_all add: trip_def UTC_def central_zone_def msPerDay_def)
  have h: "map_of (transactions (getCache central_store)) ''2001''
       = Some (trip ''2001'' (Num 1764223200000) (- 2))"
    "map_of (transactions (getCache central_store)) ''2002''
       = Some (trip ''2002'' (Num 1764309599000) (- 3))"
    "map_of (transactions (getCache central_store)) ''2003''
       = Some (trip ''2003'' (Num 1764223199000) (- 1))"
    by (simp_all add: getCache_def central_store_def)
  have x: "\<not> expired demo_now (getCache central_store) ''2001''"
    "\<not> expired demo_now (getCache central_store) ''2002''"
    "\<not> expired demo_now (getCache central_store) ''2003''"
    by (simp_all add: expired_def getCache_def central_store_def demo_now_def)
  have n: "newDateOf demo_Date_parse (Primitive (Str ''2025-11-27'')) = Some 1764201600000"
    by (simp add: newDateOf_def newDate_def demo_Date_parse_def TimeClip_def)
  have lo: "setHours central_zone (newDateOf demo_Date_parse (Primitive (Str ''2025-11-27''))) 0 0 0 0
       = Some (UTC central_zone (20418 * msPerDay))"
    unfolding n
    by (simp add: setHours_def Let_def LocalTime_def UTC_def central_zone_def msPerDay_def
        TimeClip_def)
  have hi: "setHours central_zone (newDateOf demo_Date_parse (Primitive (Str ''2025-11-27''))) 23 59 59 999
       = Some (UTC central_zone (20418 * msPerDay + 86399999))"
    unfolding n
    by (simp add: setHours_def Let_def LocalTime_def UTC_def central_zone_def msPerDay_def
        TimeClip_def)
  have r: "getCachedTransactions demo_Date_parse central_zone demo_now central_store
         (Primitive (Str ''2025-11-27'')) (Primitive (Str ''2025-11-27''))
       = ([trip ''2003'' (Num 1764223199000) (- 1)], central_store)"
    by code_simp
  from p d h x lo hi r show ?thesis
    by (simp only: simp_thms)
qed

section \<open>Properties of caching\<close>

lemma isRecentTransaction_iff:
  "isRecentTransaction P c (Some t) \<longleftrightarrow>
     (\<exists>d. newDate P (TripDate t) = Some d \<and> c - d < 3 * msPerDay)"
proof (cases "newDate P (TripDate t)")
  case None
  then show ?thesis
    by (simp add: isRecentTransaction_def)
next
  case (Some d)
  have "real_of_int (c - d) / (1000 * 60 * 60 * 24) < real_of_int RECENT_TRANSACTION_THRESHOLD_DAYS
      \<longleftrightarrow> real_of_int (c - d) < real_of_int 259200000"
    unfolding RECENT_TRANSACTION_THRESHOLD_DAYS_def by (simp add: divide_less_eq del: of_int_diff)
  also have "\<dots> \<longleftrightarrow> c - d < 259200000"
    by (rule of_int_less_iff)
  finally show ?thesis
    using Some by (simp add: isRecentTransaction_def msPerDay_def del: of_int_diff)
qed

lemma isRecentTransaction_invalid:
  "newDate P (TripDate t) = None \<Longrightarrow> \<not> isRecentTransaction P c (Some t)"
  by (simp add: isRecentTransaction_iff)

lemma cacheEach_append:
  "cacheEach P clock now (xs @ ys) s =
     (case cacheEach P clock now xs s of None \<Rightarrow> None | Some s' \<Rightarrow> cacheEach P clock now ys s')"
  by (induction P clock now xs s rule: cacheEach.induct) simp_all

lemma cacheOne_counter:
  "snd (cacheOne P clock now t (c, n)) = (if truthy (CustomerTripId t) then n + 2 else n)"
  by (simp add: cacheOne_def Let_def)

lemma map_of_setProperty:
  "map_of (setProperty key v obj) k =
     (if key = ''__proto__'' \<and> key \<notin> fst ` set obj then map_of obj k
      else if k = key then Some v else map_of obj k)"
proof (cases "key = ''__proto__'' \<and> key \<notin> fst ` set obj")
  case True
  show ?thesis
    by (simp only: setProperty_def if_P [OF True])
next
  case False
  show ?thesis
    by (simp only: setProperty_def if_not_P [OF False] AList.update_conv' fun_upd_apply)
qed

lemma setProperty_proto: "setProperty ''__proto__'' v [] = []"
  by (simp add: setProperty_def)

lemma cacheOne_entry:
  assumes "truthy (CustomerTripId t)" and "ToString (CustomerTripId t) \<noteq> ''__proto__''"
  shows "map_of (transactions (fst (cacheOne P clock now t (c, n)))) (ToString (CustomerTripId t)) = Some t"
    and "map_of (metadata (fst (cacheOne P clock now t (c, n)))) (ToString (CustomerTripId t)) =
           Some \<lparr>cachedAt = now,
                 expiresAt = now + getCacheDuration P (clock n) (Some t),
                 isRecent = isRecentTransaction P (clock (n + 1)) (Some t)\<rparr>"
  using assms by (simp_all add: cacheOne_def Let_def map_of_setProperty)

lemma cacheOne_other:
  assumes "truthy (CustomerTripId t) \<longrightarrow> ToString (CustomerTripId t) \<noteq> k"
  shows "map_of (transactions (fst (cacheOne P clock now t s))) k = map_of (transactions (fst s)) k"
    and "map_of (metadata (fst (cacheOne P clock now t s))) k = map_of (metadata (fst s)) k"
proof -
  obtain c n where s: "s = (c, n)" by (cases s)
  show "map_of (transactions (fst (cacheOne P clock now t s))) k = map_of (transactions (fst s)) k"
    using assms by (auto simp: s cacheOne_def Let_def map_of_setProperty)
  show "map_of (metadata (fst (cacheOne P clock now t s))) k = map_of (metadata (fst s)) k"
    using assms by (auto simp: s cacheOne_def Let_def map_of_setProperty)
qed

lemma cacheEach_other:
  assumes "cacheEach P clock now ts s = Some s'"
    and "\<forall>y. Some y \<in> set ts \<longrightarrow> truthy (CustomerTripId y) \<longrightarrow> ToString (CustomerTripId y) \<noteq> k"
  shows "map_of (transactions (fst s')) k = map_of (transactions (fst s)) k
       \<and> map_of (metadata (fst s')) k = map_of (metadata (fst s)) k"
  using assms
proof (induction P clock now ts s rule: cacheEach.induct)
  case (1 P clock now s)
  then show ?case by simp
next
  case (2 P clock now ts s)
  then show ?case by simp
next
  case (3 P clock now t ts s)
  have step: "truthy (CustomerTripId t) \<longrightarrow> ToString (CustomerTripId t) \<noteq> k"
    using "3.prems"(2) by simp
  have rest: "\<forall>y. Some y \<in> set ts \<longrightarrow> truthy (CustomerTripId y) \<longrightarrow> ToString (CustomerTripId y) \<noteq> k"
    using "3.prems"(2) by simp
  have run: "cacheEach P clock now ts (cacheOne P clock now t s) = Some s'"
    using "3.prems"(1) by simp
  show ?case
    using "3.IH" [OF run rest] cacheOne_other [OF step, of P clock now s] by simp
qed

lemma cacheEach_objects:
  assumes "None \<notin> set ts"
  shows "\<exists>c'. cacheEach P clock now ts (c, n) = Some (c', n + 2 * length (identified ts))"
  using assms
proof (induction ts arbitrary: c n)
  case Nil
  show ?case by (simp add: identified_def)
next
  case (Cons x ts)
  then obtain t where x: "x = Some t" by (cases x) auto
  obtain c1 where one: "cacheOne P clock now t (c, n) = (c1, if truthy (CustomerTripId t) then n + 2 else n)"
    using cacheOne_counter [of P clock now t c n] by (cases "cacheOne P clock now t (c, n)") simp
  have "None \<notin> set ts" using Cons.prems by simp
  from Cons.IH [OF this, of c1 "if truthy (CustomerTripId t) then n + 2 else n"]
  show ?case
    by (auto simp: x one identified_Cons)
qed

lemma cacheTransactions_entry:
  assumes objects: "None \<notin> set pre" "None \<notin> set post"
    and tid: "truthy (CustomerTripId t)" "ToString (CustomerTripId t) \<noteq> ''__proto__''"
    and last: "\<forall>y. Some y \<in> set post \<longrightarrow> truthy (CustomerTripId y) \<longrightarrow>
                 ToString (CustomerTripId y) \<noteq> ToString (CustomerTripId t)"
  defines "m \<equiv> 2 * length (identified pre)"
  shows "\<exists>c'. cacheTransactions P clock now s (Some (pre @ Some t # post)) = saveCache s c'
           \<and> map_of (transactions c') (ToString (CustomerTripId t)) = Some t
           \<and> map_of (metadata c') (ToString (CustomerTripId t)) =
               Some \<lparr>cachedAt = now,
                     expiresAt = now + getCacheDuration P (clock m) (Some t),
                     isRecent = isRecentTransaction P (clock (m + 1)) (Some t)\<rparr>"
proof -
  obtain c1 where pre: "cacheEach P clock now pre (getCache s, 0) = Some (c1, m)"
    using cacheEach_objects [OF objects(1), of P clock now "getCache s" 0] unfolding m_def by auto
  obtain c2 n2 where one: "cacheOne P clock now t (c1, m) = (c2, n2)"
    by (cases "cacheOne P clock now t (c1, m)")
  obtain c3 where post: "cacheEach P clock now post (c2, n2) = Some (c3, n2 + 2 * length (identified post))"
    using cacheEach_objects [OF objects(2)] by blast
  have run: "cacheEach P clock now (pre @ Some t # post) (getCache s, 0)
           = Some (c3, n2 + 2 * length (identified post))"
    by (simp add: cacheEach_append pre one post)
  have keep: "map_of (transactions c3) (ToString (CustomerTripId t)) = map_of (transactions c2) (ToString (CustomerTripId t))
            \<and> map_of (metadata c3) (ToString (CustomerTripId t)) = map_of (metadata c2) (ToString (CustomerTripId t))"
    using cacheEach_other [OF post last] by simp
  have e1: "map_of (transactions c2) (ToString (CustomerTripId t)) = Some t"
    using cacheOne_entry(1) [OF tid, of P clock now c1 m] unfolding one by simp
  have e2: "map_of (metadata c2) (ToString (CustomerTripId t)) =
               Some \<lparr>cachedAt = now,
                     expiresAt = now + getCacheDuration P (clock m) (Some t),
                     isRecent = isRecentTransaction P (clock (m + 1)) (Some t)\<rparr>"
    using cacheOne_entry(2) [OF tid, of P clock now c1 m] unfolding one by simp
  have res: "cacheTransactions P clock now s (Some (pre @ Some t # post)) = saveCache s c3"
    by (simp add: cacheTransactions_def run)
  have k1: "map_of (transactions c3) (ToString (CustomerTripId t)) = Some t"
    using keep e1 by simp
  have k2: "map_of (metadata c3) (ToString (CustomerTripId t)) =
               Some \<lparr>cachedAt = now,
                     expiresAt = now + getCacheDuration P (clock m) (Some t),
                     isRecent = isRecentTransaction P (clock (m + 1)) (Some t)\<rparr>"
    using keep e2 by simp
  from res k1 k2 show ?thesis by blast
qed

text \<open>
  \<^bold>\<open>C6\<close> (recency and expiry). \<^verbatim>\<open>cacheTransactions\<close> classifies a record twice, once
  inside \<^verbatim>\<open>getCacheDuration\<close> for \<open>expiresAt\<close> and once more for \<open>isRecent\<close>, and each
  classification reads the clock for itself. The record below is dated one millisecond
  less than three days before \<open>demo_now\<close>, and the clock advances by one millisecond from
  one reading to the next: the record is recent at the first reading and no longer at the
  second, and the store ends up holding it with the expiry of a recent record, one hour,
  and with \<open>isRecent = false\<close>. A record whose identifier is \<^verbatim>\<open>__proto__\<close> is given no expiry
  and no classification: nothing is stored for it.
\<close>

theorem cacheTransactions_classifies_twice:
  "newDate demo_Date_parse (TripDate (trip ''7'' (Num 1764080676001) (- 1)))
     = Some (demo_now - (3 * msPerDay - 1))
   \<and> isRecentTransaction demo_Date_parse demo_now (Some (trip ''7'' (Num 1764080676001) (- 1)))
   \<and> \<not> isRecentTransaction demo_Date_parse (demo_now + 1)
         (Some (trip ''7'' (Num 1764080676001) (- 1)))
   \<and> cacheTransactions demo_Date_parse (\<lambda>n. demo_now + int n) demo_now empty_store
         (Some [Some (trip ''7'' (Num 1764080676001) (- 1))])
       = \<lparr>entry = Some
            \<lparr>transactions = [(''7'', trip ''7'' (Num 1764080676001) (- 1))],
             metadata = [(''7'', \<lparr>cachedAt = demo_now,
                                  expiresAt = demo_now + 60 * 60 * 1000,
                                  isRecent = False\<rparr>)]\<rparr>,
          setItemLog =
            [\<lparr>transactions = [(''7'', trip ''7'' (Num 1764080676001) (- 1))],
              metadata = [(''7'', \<lparr>cachedAt = demo_now,
                                   expiresAt = demo_now + 60 * 60 * 1000,
                                   isRecent = False\<rparr>)]\<rparr>]\<rparr>
   \<and> truthy (CustomerTripId (trip ''__proto__'' (Num 1764080676001) (- 1)))
   \<and> cacheTransactions demo_Date_parse (\<lambda>n. demo_now) demo_now empty_store
         (Some [Some (trip ''__proto__'' (Num 1764080676001) (- 1))])
       = \<lparr>entry = Some \<lparr>transactions = [], metadata = []\<rparr>,
          setItemLog = [\<lparr>transactions = [], metadata = []\<rparr>]\<rparr>"
proof -
  let ?t = "trip ''7'' (Num 1764080676001) (- 1)"
  let ?u = "trip ''__proto__'' (Num 1764080676001) (- 1)"
  have d: "newDate demo_Date_parse (TripDate ?t) = Some (demo_now - (3 * msPerDay - 1))"
    by (simp add: newDate_def trip_def TimeClip_def demo_now_def msPerDay_def)
  have r0: "isRecentTransaction demo_Date_parse demo_now (Some ?t)"
    unfolding isRecentTransaction_iff d by (simp add: msPerDay_def)
  have r1: "\<not> isRecentTransaction demo_Date_parse (demo_now + 1) (Some ?t)"
    unfolding isRecentTransaction_iff d by (simp add: msPerDay_def)
  have i: "truthy (CustomerTripId ?t)" "ToString (CustomerTripId ?t) = ''7''"
    by (simp_all add: trip_def truthy_def ToString_def)
  have one: "cacheOne demo_Date_parse (\<lambda>n. demo_now + int n) demo_now ?t
        (\<lparr>transactions = [], metadata = []\<rparr>, 0)
      = (\<lparr>transactions = [(''7'', ?t)],
          metadata = [(''7'', \<lparr>cachedAt = demo_now, expiresAt = demo_now + 60 * 60 * 1000,
                               isRecent = False\<rparr>)]\<rparr>, 2)"
    using r0 r1
    by (simp add: cacheOne_def Let_def i getCacheDuration_def RECENT_CACHE_DURATION_MS_def
        setProperty_def)
  have c: "cacheTransactions demo_Date_parse (\<lambda>n. demo_now + int n) demo_now empty_store
         (Some [Some ?t])
       = \<lparr>entry = Some
            \<lparr>transactions = [(''7'', ?t)],
             metadata = [(''7'', \<lparr>cachedAt = demo_now, expiresAt = demo_now + 60 * 60 * 1000,
                                  isRecent = False\<rparr>)]\<rparr>,
          setItemLog =
            [\<lparr>transactions = [(''7'', ?t)],
              metadata = [(''7'', \<lparr>cachedAt = demo_now, expiresAt = demo_now + 60 * 60 * 1000,
                                   isRecent = False\<rparr>)]\<rparr>]\<rparr>"
    by (simp add: cacheTransactions_def getCache_def empty_store_def one saveCache_def)
  have j: "truthy (CustomerTripId ?u)" "ToString (CustomerTripId ?u) = ''__proto__''"
    by (simp_all add: trip_def truthy_def ToString_def)
  have two: "cacheOne demo_Date_parse (\<lambda>n. demo_now) demo_now ?u
        (\<lparr>transactions = [], metadata = []\<rparr>, 0)
      = (\<lparr>transactions = [], metadata = []\<rparr>, 2)"
    by (simp add: cacheOne_def Let_def j setProperty_proto)
  have p: "cacheTransactions demo_Date_parse (\<lambda>n. demo_now) demo_now empty_store
         (Some [Some ?u])
       = \<lparr>entry = Some \<lparr>transactions = [], metadata = []\<rparr>,
          setItemLog = [\<lparr>transactions = [], metadata = []\<rparr>]\<rparr>"
    by (simp add: cacheTransactions_def getCache_def empty_store_def two saveCache_def)
  from d r0 r1 c j(1) p show ?thesis
    by (simp only: simp_thms)
qed



text \<open>
  \<^bold>\<open>C7\<close> (an unparseable trip date). The comment in \<^verbatim>\<open>isRecentTransaction\<close> says that a
  date that cannot be parsed is treated as recent, but \<^verbatim>\<open>new Date\<close> does not throw on such
  a string, so the \<^verbatim>\<open>catch\<close> is not reached: the record below, whose \<^verbatim>\<open>TripDate\<close> is not a
  date, is classified as not recent and cached for 7 days instead of 1 hour.
\<close>

theorem unparseable_date_classified_not_recent:
  "demo_Date_parse ''not a date'' = None
   \<and> \<not> isRecentTransaction demo_Date_parse demo_now (Some (trip ''42'' (Str ''not a date'') (- 1)))
   \<and> getCacheDuration demo_Date_parse demo_now (Some (trip ''42'' (Str ''not a date'') (- 1)))
       = OLD_CACHE_DURATION_MS
   \<and> map_of (metadata (getCache (cacheTransactions demo_Date_parse (\<lambda>n. demo_now) demo_now
        empty_store (Some [Some (trip ''42'' (Str ''not a date'') (- 1))])))) ''42''
       = Some \<lparr>cachedAt = demo_now, expiresAt = demo_now + 7 * 24 * 60 * 60 * 1000, isRecent = False\<rparr>"
proof -
  let ?t = "trip ''42'' (Str ''not a date'') (- 1)"
  have p: "demo_Date_parse ''not a date'' = None"
    by (simp add: demo_Date_parse_def)
  have n: "newDate demo_Date_parse (TripDate ?t) = None"
    by (simp add: newDate_def trip_def p)
  have r: "\<not> isRecentTransaction demo_Date_parse c (Some ?t)" for c
    using n by (rule isRecentTransaction_invalid)
  have d: "getCacheDuration demo_Date_parse c (Some ?t) = OLD_CACHE_DURATION_MS" for c
    by (simp add: getCacheDuration_def r)
  have m: "map_of (metadata (getCache (cacheTransactions demo_Date_parse (\<lambda>n. demo_now) demo_now
        empty_store (Some [Some ?t])))) ''42''
       = Some \<lparr>cachedAt = demo_now, expiresAt = demo_now + 7 * 24 * 60 * 60 * 1000, isRecent = False\<rparr>"
  proof -
    have i: "truthy (CustomerTripId ?t)"
      by (simp add: trip_def truthy_def)
    have k: "ToString (CustomerTripId ?t) = ''42''"
      by (simp add: trip_def ToString_def)
    have "\<exists>c'. cacheTransactions demo_Date_parse (\<lambda>n. demo_now) demo_now empty_store
              (Some ([] @ Some ?t # [])) = saveCache empty_store c'
          \<and> map_of (transactions c') (ToString (CustomerTripId ?t)) = Some ?t
          \<and> map_of (metadata c') (ToString (CustomerTripId ?t)) =
               Some \<lparr>cachedAt = demo_now,
                     expiresAt = demo_now + getCacheDuration demo_Date_parse
                        ((\<lambda>n. demo_now) (2 * length (identified []))) (Some ?t),
                     isRecent = isRecentTransaction demo_Date_parse
                        ((\<lambda>n. demo_now) (2 * length (identified []) + 1)) (Some ?t)\<rparr>"
      by (rule cacheTransactions_entry) (simp_all add: i k)
    then obtain c' where
      "cacheTransactions demo_Date_parse (\<lambda>n. demo_now) demo_now empty_store (Some [Some ?t])
         = saveCache empty_store c'"
      "map_of (metadata c') ''42'' =
         Some \<lparr>cachedAt = demo_now, expiresAt = demo_now + OLD_CACHE_DURATION_MS, isRecent = False\<rparr>"
      unfolding k by (auto simp: d r)
    then show ?thesis
      by (simp add: getCache_def saveCache_def OLD_CACHE_DURATION_MS_def)
  qed
  from p r d m show ?thesis by blast
qed

end
